theory Spec2Isabelle
  imports Main "HOL-Library.Sublist"
begin

section \<open>Master recipe generator: a shallow embedding\<close>

text \<open>
  The function \<open>generate_b2mml_master_recipe\<close> of the master recipe generator reads four
  JSON documents (resource capabilities, solutions, the optimisation report and the general
  recipe) and builds a B2MML element tree. The model follows the generator as it stands in
  \<open>Master Recipe Generator.py\<close>; an earlier draft of the same function, kept at the end of
  \<open>Optimization.py\<close>, resolves parameters in the same way but numbers the links in two
  blocks and leaves the capability name out of the descriptions.

  The JSON objects are records here, JSON arrays are lists, the resource catalogue (a dict
  keyed by resource name) is a map, and the element tree is a record with one field per
  section. Fields that the source reads with a default (\<open>.get('capability_details', [])\<close>,
  \<open>.get('realized_by')\<close>) hold that default when the key is absent; \<open>propertyRealizedBy\<close>
  may be absent or null and is an option; every other key that the source reads is present.
  A string is the list of its characters, and a character of the model is a character with
  code point below 256. The solution id is an integer. What the generator takes from its
  libraries and cannot be read off its text is a parameter of the model: the clock, the
  token generator \<open>uuid.uuid4()\<close>, and the case folding \<open>str.lower()\<close>, about which nothing
  is assumed. The printing of the accepted tree as text is not modelled; the check that
  precedes it, and that can fail, is.
\<close>

subsection \<open>Strings\<close>

definition digit_char :: "nat \<Rightarrow> char" where
  "digit_char d = ''0123456789'' ! d"

fun str_nat :: "nat \<Rightarrow> string" where
  "str_nat n = (if n < 10 then [digit_char n] else str_nat (n div 10) @ [digit_char (n mod 10)])"

declare str_nat.simps [simp del]

definition str_int :: "int \<Rightarrow> string" where
  "str_int i = (if i < 0 then CHR ''-'' # str_nat (nat (- i)) else str_nat (nat i))"

text \<open>The format \<open>{n:03d}\<close> of a counter, which is never negative.\<close>

definition pad3 :: "nat \<Rightarrow> string" where
  "pad3 n = replicate (3 - length (str_nat n)) CHR ''0'' @ str_nat n"

text \<open>A case folding for the examples: the letters A to Z.\<close>

definition lower_char :: "char \<Rightarrow> char" where
  "lower_char c =
     (case map_of (zip ''ABCDEFGHIJKLMNOPQRSTUVWXYZ'' ''abcdefghijklmnopqrstuvwxyz'') c of
        None \<Rightarrow> c | Some l \<Rightarrow> l)"

definition ascii_lower :: "string \<Rightarrow> string" where
  "ascii_lower s = map lower_char s"

text \<open>\<open>s.startswith(p)\<close> and \<open>s.replace(old, '')\<close> for a non-empty \<open>old\<close>.\<close>

definition startswith :: "string \<Rightarrow> string \<Rightarrow> bool" where
  "startswith s p = (take (length p) s = p)"

function remove_all :: "string \<Rightarrow> string \<Rightarrow> string" where
  "remove_all old [] = []"
| "remove_all old (c # cs) =
     (if old \<noteq> [] \<and> startswith (c # cs) old
      then remove_all old (drop (length old) (c # cs))
      else c # remove_all old cs)"
  by pat_completeness auto
termination
  by (relation "measure (\<lambda>(old, s). length s)") (auto simp: startswith_def)

definition replace_char :: "char \<Rightarrow> char \<Rightarrow> string \<Rightarrow> string" where
  "replace_char a b s = map (\<lambda>c. if c = a then b else c) s"

subsection \<open>Input data\<close>

record parameter =
  p_ID :: string
  p_Key :: string
  p_Description :: string
  p_UnitOfMeasure :: string
  p_DataType :: string
  p_ValueString :: string

record process_element =
  pe_ID :: string
  pe_Description :: string
  pe_Parameters :: "parameter list"

record general_recipe =
  gr_ID :: string
  ProcessElements :: "process_element list"

record matched_property =
  property_id :: string
  mp_property_name :: string
  property_unit :: string

record capability_detail =
  cd_capability_name :: string
  matched_properties :: "matched_property list"

record assignment =
  step_id :: string
  resource :: string
  capabilities :: "string list"
  capability_details :: "capability_detail list"

record solution =
  solution_id :: int
  assignments :: "assignment list"

record property =
  property_name :: string
  propertyRealizedBy :: "string option"

text \<open>
  In \<open>capability\<close> each entry of the source is an object with the single key
  \<open>capability_name\<close>; the list holds these names.
\<close>

record capability_data =
  capability :: "string list"
  properties :: "property list"
  realized_by :: "string list"

type_synonym resources = "string \<rightharpoonup> capability_data list"

text \<open>
  The injected clock and token generator, indexed by the number of the call, and the case
  folding of strings.
\<close>

record env =
  now_isoformat :: "nat \<Rightarrow> string"
  uuid4 :: "nat \<Rightarrow> string"
  str_lower :: "string \<Rightarrow> string"

subsection \<open>Property resolution\<close>

fun scan_capability_data :: "(string \<Rightarrow> string) \<Rightarrow> capability_data list \<Rightarrow> string \<Rightarrow> string \<Rightarrow> string option" where
  "scan_capability_data lower [] capability_name pname = None"
| "scan_capability_data lower (cd # cds) capability_name pname =
     (if \<not> list_ex (\<lambda>cap. cap = capability_name) (capability cd)
      then scan_capability_data lower cds capability_name pname
      else case find (\<lambda>prop. property_name prop = pname) (properties cd) of
             Some prop \<Rightarrow> propertyRealizedBy prop
           | None \<Rightarrow>
               (case find (\<lambda>prop. lower (property_name prop) = lower pname) (properties cd) of
                  Some prop \<Rightarrow> propertyRealizedBy prop
                | None \<Rightarrow> scan_capability_data lower cds capability_name pname))"

definition find_property_realized_by ::
  "(string \<Rightarrow> string) \<Rightarrow> resources \<Rightarrow> string \<Rightarrow> string \<Rightarrow> string \<Rightarrow> string option" where
  "find_property_realized_by lower res resource_name capability_name pname =
     (case res resource_name of
        None \<Rightarrow> None
      | Some cds \<Rightarrow> scan_capability_data lower cds capability_name pname)"

subsection \<open>Parameter formatting\<close>

definition map_data_type :: "string \<Rightarrow> string" where
  "map_data_type json_type =
     (case map_of [(''xs:int'', ''integer''), (''xs:double'', ''double''), (''int'', ''integer''),
                   (''double'', ''double''), (''duration'', ''duration'')] json_type of
        Some t \<Rightarrow> t | None \<Rightarrow> json_type)"

definition map_unit :: "string \<Rightarrow> string" where
  "map_unit unit_uri =
     (case map_of
        [(''http://si-digital-framework.org/SI/units/second'', ''Sekunde''),
         (''http://si-digital-framework.org/SI/units/litre'', ''Liter''),
         (''http://si-digital-framework.org/SI/units/degreeCelsius'', ''Grad Celsius''),
         (''http://qudt.org/vocab/unit/REV-PER-MIN'', ''Umdrehungen pro Minute''),
         (''http://qudt.org/vocab/unit/PERCENT'', ''Prozent''),
         (''http://qudt.org/vocab/unit/CYC-PER-SEC'', ''Zyklen pro Sekunde'')] unit_uri of
        Some u \<Rightarrow> u
      | None \<Rightarrow>
          (if CHR ''/'' \<in> set unit_uri
           then rev (takeWhile (\<lambda>c. c \<noteq> CHR ''/'') (rev unit_uri))
           else unit_uri))"

definition strip_operator :: "string \<Rightarrow> string" where
  "strip_operator value_str =
     (if startswith value_str ''>='' \<or> startswith value_str ''<=''
      then drop 2 value_str else value_str)"

definition resource_short :: "assignment \<Rightarrow> string" where
  "resource_short a = remove_all ''2025-04_'' (remove_all ''resource: '' (resource a))"

subsection \<open>The formula section\<close>

text \<open>Python's truth value of \<open>param_id\<close>: \<open>None\<close> and the empty string are false.\<close>

definition truthy :: "string option \<Rightarrow> bool" where
  "truthy x = (case x of None \<Rightarrow> False | Some s \<Rightarrow> s \<noteq> [])"

text \<open>
  The inner loop over \<open>matched_properties\<close> stops at the first property whose id and unit
  match the parameter and leaves \<open>param_id\<close> as it was when none does; the outer loop over
  \<open>capability_details\<close> stops as soon as \<open>param_id\<close> is true.
\<close>

fun match_properties ::
  "(string \<Rightarrow> string) \<Rightarrow> resources \<Rightarrow> assignment \<Rightarrow> parameter \<Rightarrow> capability_detail \<Rightarrow> matched_property list
     \<Rightarrow> string option \<Rightarrow> string option" where
  "match_properties lower res a param cd [] param_id = param_id"
| "match_properties lower res a param cd (mp # mps) param_id =
     (if property_id mp = p_Key param \<and> property_unit mp = p_UnitOfMeasure param
      then find_property_realized_by lower res (resource a) (cd_capability_name cd) (mp_property_name mp)
      else match_properties lower res a param cd mps param_id)"

fun match_details ::
  "(string \<Rightarrow> string) \<Rightarrow> resources \<Rightarrow> assignment \<Rightarrow> parameter \<Rightarrow> capability_detail list
     \<Rightarrow> string option \<Rightarrow> string option" where
  "match_details lower res a param [] param_id = param_id"
| "match_details lower res a param (cd # cds) param_id =
     (let param_id' = match_properties lower res a param cd (matched_properties cd) param_id
      in if truthy param_id' then param_id' else match_details lower res a param cds param_id')"

definition resolve_param_id ::
  "(string \<Rightarrow> string) \<Rightarrow> resources \<Rightarrow> assignment \<Rightarrow> process_element \<Rightarrow> parameter \<Rightarrow> string option" where
  "resolve_param_id lower res a pe param =
     (if pe_ID pe = ''Dosing001'' \<and> p_ID param = ''Dosing_Amount001''
      then find_property_realized_by lower res (resource a) ''Dosing'' ''Litre''
      else match_details lower res a param (capability_details a) None)"

definition or_null :: "string option \<Rightarrow> string" where
  "or_null param_id = (if truthy param_id then the param_id else ''null'')"

definition formatted_param_id :: "nat \<Rightarrow> string \<Rightarrow> string" where
  "formatted_param_id counter param_id = pad3 counter @ '':'' @ param_id"

record formula_parameter =
  fp_ID :: string
  fp_Description :: string
  fp_ParameterType :: string
  fp_ParameterSubType :: string
  fp_ValueString :: string
  fp_DataInterpretation :: string
  fp_DataType :: string
  fp_UnitOfMeasure :: string

definition formula_entry ::
  "(string \<Rightarrow> string) \<Rightarrow> resources \<Rightarrow> assignment \<Rightarrow> process_element \<Rightarrow> parameter \<Rightarrow> nat \<Rightarrow> formula_parameter" where
  "formula_entry lower res a pe param counter =
     \<lparr>fp_ID = formatted_param_id counter (or_null (resolve_param_id lower res a pe param)),
      fp_Description = resource_short a @ ''_'' @ replace_char CHR '' '' CHR ''_'' (p_Description param),
      fp_ParameterType = ''ProcessParameter'',
      fp_ParameterSubType = ''ST'',
      fp_ValueString = strip_operator (p_ValueString param),
      fp_DataInterpretation = ''Constant'',
      fp_DataType = map_data_type (p_DataType param),
      fp_UnitOfMeasure = map_unit (p_UnitOfMeasure param)\<rparr>"

record formula_state =
  param_mapping :: "string \<rightharpoonup> string"
  global_param_counter :: nat
  formula :: "formula_parameter list"

definition process_parameter ::
  "(string \<Rightarrow> string) \<Rightarrow> resources \<Rightarrow> assignment \<Rightarrow> process_element \<Rightarrow> parameter \<Rightarrow> formula_state \<Rightarrow> formula_state" where
  "process_parameter lower res a pe param st =
     (let entry = formula_entry lower res a pe param (global_param_counter st)
      in \<lparr>param_mapping = (param_mapping st)(p_ID param \<mapsto> fp_ID entry),
          global_param_counter = global_param_counter st + 1,
          formula = formula st @ [entry]\<rparr>)"

text \<open>The first assignment of the solution whose \<open>step_id\<close> is the process element's id.\<close>

definition find_assignment :: "solution \<Rightarrow> process_element \<Rightarrow> assignment option" where
  "find_assignment sol pe = find (\<lambda>a. step_id a = pe_ID pe) (assignments sol)"

definition process_element_parameters ::
  "(string \<Rightarrow> string) \<Rightarrow> resources \<Rightarrow> solution \<Rightarrow> process_element \<Rightarrow> formula_state \<Rightarrow> formula_state" where
  "process_element_parameters lower res sol pe st =
     (case find_assignment sol pe of
        None \<Rightarrow> st
      | Some a \<Rightarrow> fold (process_parameter lower res a pe) (pe_Parameters pe) st)"

definition formula_pass :: "(string \<Rightarrow> string) \<Rightarrow> resources \<Rightarrow> solution \<Rightarrow> general_recipe \<Rightarrow> formula_state" where
  "formula_pass lower res sol gr =
     fold (process_element_parameters lower res sol) (ProcessElements gr)
       \<lparr>param_mapping = Map.empty, global_param_counter = 1, formula = []\<rparr>"

subsection \<open>Steps\<close>

record step =
  s_id :: string
  s_recipe_element_id :: string
  s_description :: string

text \<open>
  What the step loop stores on the process element itself (\<open>pe['recipe_element_id']\<close>,
  \<open>pe['recipe_element_number']\<close>, \<open>pe['capability_name']\<close>) for the recipe-element section.
\<close>

record annotation =
  recipe_element_id :: string
  recipe_element_number :: nat
  capability_name :: string

record step_state =
  step_counter :: nat
  recipe_element_counter :: nat
  steps :: "step list"
  uuid_calls :: nat
  annotated :: "(process_element \<times> annotation) list"

definition first_capability_name :: "assignment \<Rightarrow> string" where
  "first_capability_name a =
     (case find (\<lambda>cap_detail. cd_capability_name cap_detail \<noteq> []) (capability_details a) of
        Some cap_detail \<Rightarrow> cd_capability_name cap_detail
      | None \<Rightarrow> ''Unknown'')"

fun scan_realized_by :: "capability_data list \<Rightarrow> string list \<Rightarrow> string option" where
  "scan_realized_by [] caps = None"
| "scan_realized_by (cd # cds) caps =
     (if list_ex (\<lambda>cap. cap \<in> set caps) (capability cd) \<and> realized_by cd \<noteq> []
      then Some (hd (realized_by cd))
      else scan_realized_by cds caps)"

definition find_realized_by :: "resources \<Rightarrow> assignment \<Rightarrow> string option" where
  "find_realized_by res a =
     (case res (resource a) of
        None \<Rightarrow> None
      | Some cds \<Rightarrow> scan_realized_by cds (capabilities a))"

definition process_step ::
  "env \<Rightarrow> resources \<Rightarrow> solution \<Rightarrow> process_element \<Rightarrow> step_state \<Rightarrow> step_state" where
  "process_step e res sol pe st =
     (case find_assignment sol pe of
        None \<Rightarrow> st
      | Some a \<Rightarrow>
          (let n = recipe_element_counter st;
               cap_name = first_capability_name a;
               found = find_realized_by res a;
               re_id = (case found of
                          Some r \<Rightarrow> pad3 n @ '':'' @ r
                        | None \<Rightarrow> pad3 n @ '':'' @ uuid4 e (uuid_calls st));
               descr = pad3 n @ '':'' @ resource_short a @ ''_'' @ pe_Description pe @ '':'' @ cap_name
           in \<lparr>step_counter = step_counter st + 1,
               recipe_element_counter = n + 1,
               steps = steps st @
                 [\<lparr>s_id = ''S'' @ str_nat (step_counter st), s_recipe_element_id = re_id,
                   s_description = descr\<rparr>],
               uuid_calls = (case found of Some r \<Rightarrow> uuid_calls st | None \<Rightarrow> uuid_calls st + 1),
               annotated = annotated st @
                 [(pe, \<lparr>recipe_element_id = re_id, recipe_element_number = n,
                        capability_name = cap_name\<rparr>)]\<rparr>))"

definition step_pass :: "env \<Rightarrow> resources \<Rightarrow> solution \<Rightarrow> general_recipe \<Rightarrow> step_state" where
  "step_pass e res sol gr =
     (let st = fold (process_step e res sol) (ProcessElements gr)
                 \<lparr>step_counter = 2, recipe_element_counter = 1,
                  steps = [\<lparr>s_id = ''S1'', s_recipe_element_id = ''Init'', s_description = ''Init''\<rparr>],
                  uuid_calls = 0, annotated = []\<rparr>
      in st\<lparr>steps := steps st @
              [\<lparr>s_id = ''S'' @ str_nat (step_counter st), s_recipe_element_id = ''End'',
                s_description = ''End''\<rparr>]\<rparr>)"

subsection \<open>Links and transitions\<close>

record link =
  l_ID :: string
  FromIDValue :: string
  FromType :: string
  ToIDValue :: string
  ToType :: string
  LinkType :: string
  Depiction :: string
  EvaluationOrder :: string
  l_Description :: string

definition mk_link :: "nat \<Rightarrow> string \<Rightarrow> string \<Rightarrow> string \<Rightarrow> string \<Rightarrow> link" where
  "mk_link link_counter from_id from_type to_id to_type =
     \<lparr>l_ID = ''L'' @ str_nat link_counter,
      FromIDValue = from_id, FromType = from_type, ToIDValue = to_id, ToType = to_type,
      LinkType = ''ControlLink'', Depiction = ''LineAndArrow'', EvaluationOrder = ''1'',
      l_Description = ''string''\<rparr>"

text \<open>
  One round of the link loop, for \<open>i\<close> in \<open>range(len(steps) - 1)\<close>: the state is the link
  counter and the links emitted so far.
\<close>

definition link_round :: "step list \<Rightarrow> nat \<Rightarrow> nat \<times> link list \<Rightarrow> nat \<times> link list" where
  "link_round ss i st =
     (case st of (link_counter, ls) \<Rightarrow>
        (link_counter + 2,
         ls @ [mk_link link_counter (s_id (ss ! i)) ''Step'' (''T'' @ str_nat (i + 1)) ''Transition'',
               mk_link (link_counter + 1) (''T'' @ str_nat (i + 1)) ''Transition''
                 (s_id (ss ! (i + 1))) ''Step'']))"

definition make_links :: "step list \<Rightarrow> link list" where
  "make_links ss = snd (fold (link_round ss) [0..<length ss - 1] (1, []))"

record transition =
  t_ID :: string
  t_Condition :: string

definition make_transition :: "step list \<Rightarrow> nat \<Rightarrow> transition" where
  "make_transition ss i =
     \<lparr>t_ID = ''T'' @ str_nat i,
      t_Condition =
        (if i = 1 then ''True''
         else if i = length ss - 1 then ''Step '' @ s_description (ss ! (i - 1)) @ '' is Completed''
         else ''Step '' @ s_description (ss ! (i - 1)) @ '' is Completed'')\<rparr>"

definition make_transitions :: "step list \<Rightarrow> transition list" where
  "make_transitions ss = map (make_transition ss) [1..<length ss]"

subsection \<open>Recipe elements\<close>

text \<open>
  \<open>re_Parameters\<close> holds the ids of the parameter references of the element; each reference
  carries the constant type \<open>ProcessParameter\<close> besides.
\<close>

record recipe_element =
  re_ID :: string
  re_Description :: "string option"
  re_RecipeElementType :: string
  re_ActualEquipmentID :: "string option"
  re_EquipmentRequirement :: "string option"
  re_Parameters :: "string list"

definition pe_short :: "string \<Rightarrow> string" where
  "pe_short d =
     (case map_of [(''Mixing_of_Liquids'', ''Mixing''), (''Dosing'', ''Dosing''),
                   (''Heating_of_liquids'', ''Heating'')] d of
        Some n \<Rightarrow> n | None \<Rightarrow> d)"

definition marker_element :: "string \<Rightarrow> string \<Rightarrow> recipe_element" where
  "marker_element elem_type elem_id =
     \<lparr>re_ID = elem_id, re_Description = None, re_RecipeElementType = elem_type,
      re_ActualEquipmentID = None, re_EquipmentRequirement = None, re_Parameters = []\<rparr>"

text \<open>The references of an element: one for each of its parameters that is in the mapping.\<close>

definition parameter_refs :: "(string \<rightharpoonup> string) \<Rightarrow> process_element \<Rightarrow> string list" where
  "parameter_refs pm pe =
     map (\<lambda>param. the (pm (p_ID param)))
       (filter (\<lambda>param. pm (p_ID param) \<noteq> None) (pe_Parameters pe))"

definition operation_element ::
  "(string \<rightharpoonup> string) \<Rightarrow> solution \<Rightarrow> process_element \<times> annotation \<Rightarrow> recipe_element list" where
  "operation_element pm sol x =
     (case x of (pe, an) \<Rightarrow>
        (case find_assignment sol pe of
           None \<Rightarrow> []
         | Some a \<Rightarrow>
             [\<lparr>re_ID = recipe_element_id an,
               re_Description = Some (resource_short a @ ''_'' @ pe_short (pe_Description pe)
                                       @ ''_Procedure:'' @ capability_name an),
               re_RecipeElementType = ''Operation'',
               re_ActualEquipmentID = Some (resource_short a @ ''Instance''),
               re_EquipmentRequirement = Some ''Equipment Requirement for the HCs'',
               re_Parameters = parameter_refs pm pe\<rparr>]))"

definition operation_elements ::
  "(string \<rightharpoonup> string) \<Rightarrow> solution \<Rightarrow> (process_element \<times> annotation) list \<Rightarrow> recipe_element list" where
  "operation_elements pm sol ann =
     concat (map (operation_element pm sol) (sort_key (\<lambda>x. recipe_element_number (snd x)) ann))"

definition make_recipe_elements ::
  "(string \<rightharpoonup> string) \<Rightarrow> solution \<Rightarrow> (process_element \<times> annotation) list \<Rightarrow> recipe_element list" where
  "make_recipe_elements pm sol ann =
     [marker_element ''Begin'' ''Init'', marker_element ''End'' ''End'']
       @ operation_elements pm sol ann"

subsection \<open>The document\<close>

record document =
  ListHeader_ID :: string
  CreateDate :: string
  Description :: string
  MasterRecipe_ID :: string
  Version :: string
  VersionDate :: string
  MasterRecipe_Description :: string
  ProductID :: string
  ProductName :: string
  EquipmentRequirement_ID :: string
  Constraint_ID :: string
  Constraint_Condition :: string
  EquipmentRequirement_Description :: string
  Formula :: "formula_parameter list"
  Links :: "link list"
  Steps :: "step list"
  Transitions :: "transition list"
  RecipeElements :: "recipe_element list"

datatype error = ValueError string | ExpatError

text \<open>
  The tree is written out by \<open>ET.tostring\<close> and read back by \<open>minidom.parseString\<close>
  before it is printed. Writing escapes the markup characters, so reading fails, with an
  \<open>ExpatError\<close>, exactly when some text of the tree holds a character that XML does not
  admit: a control character below 32 other than tab, line feed and carriage return. The
  accepted tree stands for its printed text.
\<close>

definition xml_char :: "char \<Rightarrow> bool" where
  "xml_char c = (let n = (of_char c :: nat) in 32 \<le> n \<or> n = 9 \<or> n = 10 \<or> n = 13)"

definition xml_text :: "string \<Rightarrow> bool" where
  "xml_text s = list_all xml_char s"

definition xml_opt :: "string option \<Rightarrow> bool" where
  "xml_opt x = (case x of None \<Rightarrow> True | Some s \<Rightarrow> xml_text s)"

definition xml_formula_parameter :: "formula_parameter \<Rightarrow> bool" where
  "xml_formula_parameter fp =
     (xml_text (fp_ID fp) \<and> xml_text (fp_Description fp) \<and> xml_text (fp_ParameterType fp)
      \<and> xml_text (fp_ParameterSubType fp) \<and> xml_text (fp_ValueString fp)
      \<and> xml_text (fp_DataInterpretation fp) \<and> xml_text (fp_DataType fp)
      \<and> xml_text (fp_UnitOfMeasure fp))"

definition xml_link :: "link \<Rightarrow> bool" where
  "xml_link l =
     (xml_text (l_ID l) \<and> xml_text (FromIDValue l) \<and> xml_text (FromType l)
      \<and> xml_text (ToIDValue l) \<and> xml_text (ToType l) \<and> xml_text (LinkType l)
      \<and> xml_text (Depiction l) \<and> xml_text (EvaluationOrder l) \<and> xml_text (l_Description l))"

definition xml_step :: "step \<Rightarrow> bool" where
  "xml_step st =
     (xml_text (s_id st) \<and> xml_text (s_recipe_element_id st) \<and> xml_text (s_description st))"

definition xml_transition :: "transition \<Rightarrow> bool" where
  "xml_transition t = (xml_text (t_ID t) \<and> xml_text (t_Condition t))"

definition xml_recipe_element :: "recipe_element \<Rightarrow> bool" where
  "xml_recipe_element r =
     (xml_text (re_ID r) \<and> xml_opt (re_Description r) \<and> xml_text (re_RecipeElementType r)
      \<and> xml_opt (re_ActualEquipmentID r) \<and> xml_opt (re_EquipmentRequirement r)
      \<and> list_all xml_text (re_Parameters r))"

definition xml_document :: "document \<Rightarrow> bool" where
  "xml_document doc =
     (xml_text (ListHeader_ID doc) \<and> xml_text (CreateDate doc) \<and> xml_text (Description doc)
      \<and> xml_text (MasterRecipe_ID doc) \<and> xml_text (Version doc) \<and> xml_text (VersionDate doc)
      \<and> xml_text (MasterRecipe_Description doc) \<and> xml_text (ProductID doc)
      \<and> xml_text (ProductName doc) \<and> xml_text (EquipmentRequirement_ID doc)
      \<and> xml_text (Constraint_ID doc) \<and> xml_text (Constraint_Condition doc)
      \<and> xml_text (EquipmentRequirement_Description doc)
      \<and> list_all xml_formula_parameter (Formula doc) \<and> list_all xml_link (Links doc)
      \<and> list_all xml_step (Steps doc) \<and> list_all xml_transition (Transitions doc)
      \<and> list_all xml_recipe_element (RecipeElements doc))"

definition serialise :: "document \<Rightarrow> error + document" where
  "serialise doc = (if xml_document doc then Inr doc else Inl ExpatError)"

text \<open>\<open>optimization['optimal_solution']['solution_id']\<close> is all the generator reads of the report.\<close>

record optimization =
  optimal_solution_id :: int

definition build_document ::
  "env \<Rightarrow> resources \<Rightarrow> solution \<Rightarrow> int \<Rightarrow> general_recipe \<Rightarrow> document" where
  "build_document e res sol sid gr =
     (let fs = formula_pass (str_lower e) res sol gr;
          ss = step_pass e res sol gr
      in \<lparr>ListHeader_ID = ''ListHeadID'',
          CreateDate = now_isoformat e 0 @ ''+01:00'',
          Description = ''This Batch Information includes the Master Recipe based on General Recipe ''
            @ gr_ID gr @ '' and Optimal Solution '' @ str_int sid,
          MasterRecipe_ID = ''MasterRecipe_'' @ str_int sid,
          Version = ''1.0.0'',
          VersionDate = now_isoformat e 1 @ ''+01:00'',
          MasterRecipe_Description = ''Master recipe based on General Recipe '' @ gr_ID gr
            @ '' and optimized solution '' @ str_int sid @ '' using resources from optimization'',
          ProductID = ''StirredHeatedWater'',
          ProductName = ''Stirred and Heated Water'',
          EquipmentRequirement_ID = ''Equipment Requirement for the HCs'',
          Constraint_ID = ''Material constraint'',
          Constraint_Condition = ''Material == H2O'',
          EquipmentRequirement_Description =
            ''Only water is allowed for the stirring and heating process'',
          Formula = formula fs,
          Links = make_links (steps ss),
          Steps = steps ss,
          Transitions = make_transitions (steps ss),
          RecipeElements = make_recipe_elements (param_mapping fs) sol (annotated ss)\<rparr>)"

text \<open>
  The generator returns the printed document together with the solution id and the report
  entry, which are inputs passed through; the model returns the document, or the error
  raised: the \<open>ValueError\<close> for a solution id that is not among the solutions, before
  anything is built, or the \<open>ExpatError\<close> of the final reading.
\<close>

definition optimal_solution :: "solution list \<Rightarrow> optimization \<Rightarrow> solution option" where
  "optimal_solution solutions opt =
     find (\<lambda>sol. solution_id sol = optimal_solution_id opt) solutions"

definition generate_b2mml_master_recipe ::
  "env \<Rightarrow> resources \<Rightarrow> solution list \<Rightarrow> optimization \<Rightarrow> general_recipe \<Rightarrow> error + document" where
  "generate_b2mml_master_recipe e res solutions opt gr =
     (case optimal_solution solutions opt of
        None \<Rightarrow>
          Inl (ValueError (''Optimal solution '' @ str_int (optimal_solution_id opt)
                           @ '' not found in solutions.json''))
      | Some sol \<Rightarrow> serialise (build_document e res sol (optimal_solution_id opt) gr))"

subsection \<open>Notions used in the statements\<close>

text \<open>
  The process elements that have a matching assignment, in recipe order: those for which
  some assignment of the solution carries the id of the element as its \<open>step_id\<close>. The
  assignment of such an element is the first one of the solution that does.
\<close>

definition assigned_elements :: "solution \<Rightarrow> general_recipe \<Rightarrow> process_element list" where
  "assigned_elements sol gr =
     filter (\<lambda>pe. list_ex (\<lambda>a. step_id a = pe_ID pe) (assignments sol)) (ProcessElements gr)"

definition assignment_of :: "solution \<Rightarrow> process_element \<Rightarrow> assignment" where
  "assignment_of sol pe = hd (filter (\<lambda>a. step_id a = pe_ID pe) (assignments sol))"

text \<open>Their parameters, in process-element-then-parameter order.\<close>

definition assigned_parameters :: "solution \<Rightarrow> general_recipe \<Rightarrow> (process_element \<times> parameter) list" where
  "assigned_parameters sol gr =
     concat (map (\<lambda>pe. map (Pair pe) (pe_Parameters pe)) (assigned_elements sol gr))"

text \<open>Cutting a list into consecutive pieces of given lengths.\<close>

fun chunks :: "nat list \<Rightarrow> 'a list \<Rightarrow> 'a list list" where
  "chunks [] xs = []"
| "chunks (n # ns) xs = take n xs # chunks ns (drop n xs)"




text \<open>
  The number of tokens drawn from the generator for a list of assigned elements: one for
  each element without a realized-by reference.
\<close>

definition tokens_drawn :: "resources \<Rightarrow> solution \<Rightarrow> process_element list \<Rightarrow> nat" where
  "tokens_drawn res sol pes =
     length (filter (\<lambda>pe. find_realized_by res (assignment_of sol pe) = None) pes)"

text \<open>
  The resolution of a property as the specification words it: of the capability records of
  the resource, the first one is taken that is accepted (its capability names contain the
  name asked for) and has a property matching the name, exactly or up to case; in it an
  exact match comes before a match up to case.
\<close>

definition accepted :: "string \<Rightarrow> capability_data \<Rightarrow> bool" where
  "accepted cname cd = (cname \<in> set (capability cd))"

definition resolve_spec :: "(string \<Rightarrow> string) \<Rightarrow> resources \<Rightarrow> string \<Rightarrow> string \<Rightarrow> string \<Rightarrow> string option" where
  "resolve_spec lower res rname cname pname =
     (case res rname of
        None \<Rightarrow> None
      | Some cds \<Rightarrow>
          (case find (\<lambda>cd. accepted cname cd \<and>
                            list_ex (\<lambda>p. lower (property_name p) = lower pname) (properties cd)) cds of
             None \<Rightarrow> None
           | Some cd \<Rightarrow>
               (case find (\<lambda>p. property_name p = pname) (properties cd) of
                  Some p \<Rightarrow> propertyRealizedBy p
                | None \<Rightarrow>
                    (case find (\<lambda>p. lower (property_name p) = lower pname) (properties cd) of
                       Some p \<Rightarrow> propertyRealizedBy p
                     | None \<Rightarrow> None))))"

text \<open>
  The generic resolution of a parameter as a statement of its own: each capability detail
  of the assignment offers at most one candidate, the resolution of its first matched
  property whose id is the key of the parameter and whose unit is the unit of the
  parameter; the identifier is the first candidate that is a non-empty reference, and the
  marker \<open>null\<close> when there is none.
\<close>

definition generic_candidates ::
  "(string \<Rightarrow> string) \<Rightarrow> resources \<Rightarrow> assignment \<Rightarrow> parameter \<Rightarrow> string option list" where
  "generic_candidates lower res a param =
     concat (map (\<lambda>cd.
       (case find (\<lambda>mp. property_id mp = p_Key param \<and> property_unit mp = p_UnitOfMeasure param)
               (matched_properties cd) of
          None \<Rightarrow> []
        | Some mp \<Rightarrow>
            [find_property_realized_by lower res (resource a) (cd_capability_name cd)
               (mp_property_name mp)]))
       (capability_details a))"

definition first_reference :: "string option list \<Rightarrow> string" where
  "first_reference cands =
     (case find (\<lambda>r. r \<noteq> None \<and> r \<noteq> Some []) cands of
        Some r \<Rightarrow> the r
      | None \<Rightarrow> ''null'')"

text \<open>
  The strings of the inputs that reach the document, checked for characters that XML does
  not admit: those of the recipe, of the assignments and of the catalogue entries of their
  resources, the two readings of the clock, and as many tokens as there are process
  elements.
\<close>

definition xml_parameter :: "parameter \<Rightarrow> bool" where
  "xml_parameter p =
     (xml_text (p_Description p) \<and> xml_text (p_UnitOfMeasure p) \<and> xml_text (p_DataType p)
      \<and> xml_text (p_ValueString p))"

definition xml_process_element :: "process_element \<Rightarrow> bool" where
  "xml_process_element pe =
     (xml_text (pe_Description pe) \<and> list_all xml_parameter (pe_Parameters pe))"

definition xml_capability_data :: "capability_data \<Rightarrow> bool" where
  "xml_capability_data cd =
     (list_all (\<lambda>p. xml_opt (propertyRealizedBy p)) (properties cd)
      \<and> list_all xml_text (realized_by cd))"

definition xml_assignment :: "resources \<Rightarrow> assignment \<Rightarrow> bool" where
  "xml_assignment res a =
     (xml_text (resource a)
      \<and> list_all (\<lambda>cd. xml_text (cd_capability_name cd)) (capability_details a)
      \<and> (case res (resource a) of None \<Rightarrow> True | Some cds \<Rightarrow> list_all xml_capability_data cds))"

definition inputs_ok :: "env \<Rightarrow> resources \<Rightarrow> solution \<Rightarrow> general_recipe \<Rightarrow> bool" where
  "inputs_ok e res sol gr =
     (xml_text (gr_ID gr)
      \<and> list_all xml_process_element (ProcessElements gr)
      \<and> list_all (xml_assignment res) (assignments sol)
      \<and> xml_text (now_isoformat e 0) \<and> xml_text (now_isoformat e 1)
      \<and> list_all (\<lambda>k. xml_text (uuid4 e k)) [0..<length (ProcessElements gr)])"

text \<open>
  Allocating the identifier of one parameter of an assigned element, and the entry the
  formula section holds at position \<open>k\<close> when the parameters \<open>xs\<close> are allocated in order.
\<close>

definition allocate ::
  "(string \<Rightarrow> string) \<Rightarrow> resources \<Rightarrow> solution \<Rightarrow> process_element \<times> parameter \<Rightarrow> formula_state \<Rightarrow> formula_state" where
  "allocate lower res sol x st = process_parameter lower res (assignment_of sol (fst x)) (fst x) (snd x) st"

definition init_formula_state :: formula_state where
  "init_formula_state = \<lparr>param_mapping = Map.empty, global_param_counter = 1, formula = []\<rparr>"

definition entry_of ::
  "(string \<Rightarrow> string) \<Rightarrow> resources \<Rightarrow> solution \<Rightarrow> (process_element \<times> parameter) list \<Rightarrow> nat \<Rightarrow> formula_parameter" where
  "entry_of lower res sol xs k =
     formula_entry lower res (assignment_of sol (fst (xs ! k))) (fst (xs ! k)) (snd (xs ! k)) (k + 1)"

text \<open>
  The step loop over a list \<open>xs\<close> of assigned elements: the identifier, the step and the
  annotation it produces for the element at position \<open>j\<close>.
\<close>

definition init_step_state :: step_state where
  "init_step_state =
     \<lparr>step_counter = 2, recipe_element_counter = 1,
      steps = [\<lparr>s_id = ''S1'', s_recipe_element_id = ''Init'', s_description = ''Init''\<rparr>],
      uuid_calls = 0, annotated = []\<rparr>"

definition re_id_of :: "env \<Rightarrow> resources \<Rightarrow> solution \<Rightarrow> process_element list \<Rightarrow> nat \<Rightarrow> string" where
  "re_id_of e res sol xs j =
     pad3 (j + 1) @ '':'' @
       (case find_realized_by res (assignment_of sol (xs ! j)) of
          Some r \<Rightarrow> r
        | None \<Rightarrow> uuid4 e (tokens_drawn res sol (take j xs)))"

definition step_of :: "env \<Rightarrow> resources \<Rightarrow> solution \<Rightarrow> process_element list \<Rightarrow> nat \<Rightarrow> step" where
  "step_of e res sol xs j =
     \<lparr>s_id = ''S'' @ str_nat (j + 2),
      s_recipe_element_id = re_id_of e res sol xs j,
      s_description = pad3 (j + 1) @ '':'' @ resource_short (assignment_of sol (xs ! j)) @ ''_''
        @ pe_Description (xs ! j) @ '':'' @ first_capability_name (assignment_of sol (xs ! j))\<rparr>"

definition annotation_of ::
  "env \<Rightarrow> resources \<Rightarrow> solution \<Rightarrow> process_element list \<Rightarrow> nat \<Rightarrow> process_element \<times> annotation" where
  "annotation_of e res sol xs j =
     (xs ! j, \<lparr>recipe_element_id = re_id_of e res sol xs j, recipe_element_number = j + 1,
               capability_name = first_capability_name (assignment_of sol (xs ! j))\<rparr>)"

text \<open>The two links that round \<open>i\<close> of the link loop emits.\<close>

definition link_pair :: "step list \<Rightarrow> nat \<Rightarrow> link list" where
  "link_pair ss i =
     [mk_link (2 * i + 1) (s_id (ss ! i)) ''Step'' (''T'' @ str_nat (i + 1)) ''Transition'',
      mk_link (2 * i + 2) (''T'' @ str_nat (i + 1)) ''Transition'' (s_id (ss ! (i + 1))) ''Step'']"

text \<open>
  An example: the recipe with the single element Heating, its one parameter with key Temp
  and a known unit, and a solution that assigns the element to a resource. Of the matched
  properties of the assignment the first differs from the parameter in key and unit, the
  second in the unit, and the third matches.
\<close>

definition ex_param :: parameter where
  "ex_param =
     \<lparr>p_ID = ''Heating_Temp001'', p_Key = ''Temp'', p_Description = ''Target temperature'',
      p_UnitOfMeasure = ''http://si-digital-framework.org/SI/units/degreeCelsius'',
      p_DataType = ''xs:double'', p_ValueString = ''>=60''\<rparr>"

definition ex_heating :: process_element where
  "ex_heating = \<lparr>pe_ID = ''Heating001'', pe_Description = ''Heating'', pe_Parameters = [ex_param]\<rparr>"

definition ex_recipe :: general_recipe where
  "ex_recipe = \<lparr>gr_ID = ''GR1'', ProcessElements = [ex_heating]\<rparr>"

definition ex_assignment :: assignment where
  "ex_assignment =
     \<lparr>step_id = ''Heating001'', resource = ''resource: 2025-04_HC10'', capabilities = [''Heating''],
      capability_details =
        [\<lparr>cd_capability_name = ''Heating'',
          matched_properties =
            [\<lparr>property_id = ''Speed'', mp_property_name = ''Rotation'',
              property_unit = ''http://qudt.org/vocab/unit/REV-PER-MIN''\<rparr>,
             \<lparr>property_id = ''Temp'', mp_property_name = ''Rotation'',
              property_unit = ''http://qudt.org/vocab/unit/REV-PER-MIN''\<rparr>,
             \<lparr>property_id = ''Temp'', mp_property_name = ''Temperature'',
              property_unit = ''http://si-digital-framework.org/SI/units/degreeCelsius''\<rparr>]\<rparr>]\<rparr>"

definition ex_sol :: solution where
  "ex_sol = \<lparr>solution_id = 4, assignments = [ex_assignment]\<rparr>"

definition ex_res :: resources where
  "ex_res =
     [''resource: 2025-04_HC10'' \<mapsto>
        [\<lparr>capability = [''Heating''],
          properties =
            [\<lparr>property_name = ''Rotation'', propertyRealizedBy = Some ''ns=2;i=99''\<rparr>,
             \<lparr>property_name = ''temperature'', propertyRealizedBy = Some ''ns=2;i=17''\<rparr>],
          realized_by = [''HeatSvc'']\<rparr>]]"

definition ex_env :: env where
  "ex_env = \<lparr>now_isoformat = (\<lambda>n. ''2025-01-01T00:00:00''), uuid4 = (\<lambda>n. ''token'' @ str_nat n),
      str_lower = ascii_lower\<rparr>"

definition ex_opt :: optimization where
  "ex_opt = \<lparr>optimal_solution_id = 4\<rparr>"

definition ex_doc :: document where
  "ex_doc = build_document ex_env ex_res ex_sol 4 ex_recipe"

text \<open>
  A second example: Dosing before Heating. The dosing assignment carries no capability
  details, and its resource has the property Litre but no realized-by reference.
\<close>

definition ex_dosing_param :: parameter where
  "ex_dosing_param =
     \<lparr>p_ID = ''Dosing_Amount001'', p_Key = ''Amount'', p_Description = ''Dosing amount'',
      p_UnitOfMeasure = ''http://si-digital-framework.org/SI/units/litre'',
      p_DataType = ''xs:double'', p_ValueString = ''1.5''\<rparr>"

definition ex_dosing :: process_element where
  "ex_dosing = \<lparr>pe_ID = ''Dosing001'', pe_Description = ''Dosing'', pe_Parameters = [ex_dosing_param]\<rparr>"

definition ex_dosing_assignment :: assignment where
  "ex_dosing_assignment =
     \<lparr>step_id = ''Dosing001'', resource = ''resource: 2025-04_HC20'', capabilities = [''Dosing''],
      capability_details = []\<rparr>"

definition ex_res2 :: resources where
  "ex_res2 =
     ex_res(''resource: 2025-04_HC20'' \<mapsto>
        [\<lparr>capability = [''Dosing''],
          properties = [\<lparr>property_name = ''Litre'', propertyRealizedBy = Some ''ns=2;i=30''\<rparr>],
          realized_by = []\<rparr>])"

definition ex_recipe2 :: general_recipe where
  "ex_recipe2 = \<lparr>gr_ID = ''GR2'', ProcessElements = [ex_dosing, ex_heating]\<rparr>"

definition ex_sol2 :: solution where
  "ex_sol2 = \<lparr>solution_id = 4, assignments = [ex_assignment, ex_dosing_assignment]\<rparr>"

definition ex_doc2 :: document where
  "ex_doc2 = build_document ex_env ex_res2 ex_sol2 4 ex_recipe2"

text \<open>
  The operation element of the recipe-element section for the assigned element at position
  \<open>j\<close> of \<open>xs\<close>, given the parameter mapping \<open>pm\<close>.
\<close>

definition operation_of ::
  "(string \<rightharpoonup> string) \<Rightarrow> env \<Rightarrow> resources \<Rightarrow> solution \<Rightarrow> process_element list \<Rightarrow> nat
     \<Rightarrow> recipe_element" where
  "operation_of pm e res sol xs j =
     \<lparr>re_ID = re_id_of e res sol xs j,
      re_Description = Some (resource_short (assignment_of sol (xs ! j)) @ ''_''
        @ pe_short (pe_Description (xs ! j)) @ ''_Procedure:''
        @ first_capability_name (assignment_of sol (xs ! j))),
      re_RecipeElementType = ''Operation'',
      re_ActualEquipmentID = Some (resource_short (assignment_of sol (xs ! j)) @ ''Instance''),
      re_EquipmentRequirement = Some ''Equipment Requirement for the HCs'',
      re_Parameters = parameter_refs pm (xs ! j)\<rparr>"

text \<open>
  A third example: two heating elements whose parameters carry the same id.
\<close>

definition ex_recipe3 :: general_recipe where
  "ex_recipe3 =
     \<lparr>gr_ID = ''GR3'', ProcessElements = [ex_heating, ex_heating\<lparr>pe_ID := ''Heating002''\<rparr>]\<rparr>"

definition ex_sol3 :: solution where
  "ex_sol3 =
     \<lparr>solution_id = 4, assignments = [ex_assignment, ex_assignment\<lparr>step_id := ''Heating002''\<rparr>]\<rparr>"

definition ex_doc3 :: document where
  "ex_doc3 = build_document ex_env ex_res ex_sol3 4 ex_recipe3"

text \<open>
  Further examples: the recipe of the second example with the solution of the first, which
  has no assignment for Dosing; the second example with an empty catalogue; a recipe whose
  element has a thousand parameters; and a recipe whose description holds the control
  character with code 1.
\<close>

definition ex_doc4 :: document where
  "ex_doc4 = build_document ex_env ex_res ex_sol 4 ex_recipe2"

definition ex_doc5 :: document where
  "ex_doc5 = build_document ex_env Map.empty ex_sol2 4 ex_recipe2"



definition ex_recipe7 :: general_recipe where
  "ex_recipe7 =
     \<lparr>gr_ID = ''GR7'',
      ProcessElements = [ex_heating\<lparr>pe_Description := [char_of (1::nat)]\<rparr>]\<rparr>"

section \<open>Properties\<close>

subsection \<open>Formatting of ordinals\<close>












subsection \<open>Assignments\<close>

lemma find_assignment_None:
  "(find_assignment sol pe = None) = (\<not> list_ex (\<lambda>a. step_id a = pe_ID pe) (assignments sol))"
  by (auto simp: find_assignment_def find_None_iff list_ex_iff)

lemma assigned_elements_find:
  "assigned_elements sol gr = filter (\<lambda>pe. find_assignment sol pe \<noteq> None) (ProcessElements gr)"
  by (simp add: assigned_elements_def find_assignment_None)

lemma find_filter_hd: "find P xs = Some x \<Longrightarrow> hd (filter P xs) = x"
  by (induction xs) (auto split: if_splits)

lemma assignment_of_find: "find_assignment sol pe = Some a \<Longrightarrow> assignment_of sol pe = a"
  by (simp add: assignment_of_def find_assignment_def find_filter_hd)

lemma find_assignment_set: "find_assignment sol pe = Some a \<Longrightarrow> a \<in> set (assignments sol)"
  by (auto simp: find_assignment_def find_Some_iff)

lemma assigned_has_assignment:
  "pe \<in> set (assigned_elements sol gr) \<Longrightarrow> find_assignment sol pe = Some (assignment_of sol pe)"
  by (auto simp: assigned_elements_find assignment_of_find)

subsection \<open>The formula pass\<close>

text \<open>The pass over the elements is one pass over the parameters of the assigned elements.\<close>

lemma fold_map_Pair:
  "fold (allocate lower res sol) (map (Pair pe) ps) st =
   fold (process_parameter lower res (assignment_of sol pe) pe) ps st"
  by (induction ps arbitrary: st) (simp_all add: allocate_def)

lemma formula_fold_flat:
  "fold (process_element_parameters lower res sol) pes st =
   fold (allocate lower res sol)
     (concat (map (\<lambda>pe. map (Pair pe) (pe_Parameters pe))
        (filter (\<lambda>pe. find_assignment sol pe \<noteq> None) pes))) st"
proof (induction pes arbitrary: st)
  case Nil
  show ?case by simp
next
  case (Cons pe pes)
  show ?case
  proof (cases "find_assignment sol pe")
    case None
    then show ?thesis
      using Cons.IH by (simp add: process_element_parameters_def)
  next
    case (Some a)
    then show ?thesis
      using Cons.IH by (simp add: process_element_parameters_def fold_map_Pair assignment_of_find)
  qed
qed

lemma formula_pass_flat:
  "formula_pass lower res sol gr = fold (allocate lower res sol) (assigned_parameters sol gr) init_formula_state"
  by (simp add: formula_pass_def formula_fold_flat assigned_parameters_def assigned_elements_find
      init_formula_state_def)

lemma entry_of_append:
  "k < length xs \<Longrightarrow> entry_of lower res sol (xs @ ys) k = entry_of lower res sol xs k"
  by (simp add: entry_of_def nth_append)

lemma allocate_fields:
  "global_param_counter (allocate lower res sol x st) = global_param_counter st + 1"
  "formula (allocate lower res sol x st) = formula st @
     [formula_entry lower res (assignment_of sol (fst x)) (fst x) (snd x) (global_param_counter st)]"
  "param_mapping (allocate lower res sol x st) = (param_mapping st)(p_ID (snd x) \<mapsto>
     fp_ID (formula_entry lower res (assignment_of sol (fst x)) (fst x) (snd x) (global_param_counter st)))"
  by (simp_all add: allocate_def process_parameter_def Let_def)

lemma allocate_counter:
  "global_param_counter (fold (allocate lower res sol) xs init_formula_state) = length xs + 1"
  by (induction xs rule: rev_induct) (simp_all add: init_formula_state_def allocate_fields)

lemma allocate_formula:
  "formula (fold (allocate lower res sol) xs init_formula_state) = map (entry_of lower res sol xs) [0..<length xs]"
proof (induction xs rule: rev_induct)
  case Nil
  show ?case by (simp add: init_formula_state_def)
next
  case (snoc x xs)
  have "map (entry_of lower res sol (xs @ [x])) [0..<length xs] = map (entry_of lower res sol xs) [0..<length xs]"
    by (simp add: entry_of_append)
  moreover have "entry_of lower res sol (xs @ [x]) (length xs) =
      formula_entry lower res (assignment_of sol (fst x)) (fst x) (snd x)
        (global_param_counter (fold (allocate lower res sol) xs init_formula_state))"
    by (simp add: entry_of_def allocate_counter)
  ultimately show ?case
    using snoc.IH by (simp add: allocate_fields)
qed

lemma allocate_mapping_dom:
  "dom (param_mapping (fold (allocate lower res sol) xs init_formula_state)) = p_ID ` snd ` set xs"
proof (induction xs rule: rev_induct)
  case Nil
  show ?case by (simp add: init_formula_state_def)
next
  case (snoc x xs)
  have "dom (param_mapping (fold (allocate lower res sol) (xs @ [x]) init_formula_state)) =
      insert (p_ID (snd x)) (dom (param_mapping (fold (allocate lower res sol) xs init_formula_state)))"
    by (simp add: allocate_fields)
  then show ?case
    by (simp add: snoc.IH)
qed

lemma allocate_mapping_distinct:
  "distinct (map (\<lambda>x. p_ID (snd x)) xs) \<Longrightarrow> k < length xs \<Longrightarrow>
   param_mapping (fold (allocate lower res sol) xs init_formula_state) (p_ID (snd (xs ! k)))
     = Some (fp_ID (entry_of lower res sol xs k))"
proof (induction xs rule: rev_induct)
  case Nil
  then show ?case by simp
next
  case (snoc x xs)
  show ?case
  proof (cases "k < length xs")
    case True
    then have "xs ! k \<in> set xs" by simp
    moreover from snoc.prems have "p_ID (snd x) \<notin> (\<lambda>x. p_ID (snd x)) ` set xs"
      by simp
    ultimately have ne: "p_ID (snd (xs ! k)) \<noteq> p_ID (snd x)"
      by (metis image_eqI)
    from snoc.prems have "distinct (map (\<lambda>x. p_ID (snd x)) xs)" by simp
    with True snoc.IH have "param_mapping (fold (allocate lower res sol) xs init_formula_state) (p_ID (snd (xs ! k)))
       = Some (fp_ID (entry_of lower res sol xs k))" by simp
    with True ne show ?thesis
      by (simp add: allocate_fields nth_append entry_of_append)
  next
    case False
    with snoc.prems have k: "k = length xs" by simp
    show ?thesis
      by (simp add: k allocate_fields entry_of_def allocate_counter)
  qed
qed


subsection \<open>The step loop\<close>

lemma step_fold_filter:
  "fold (process_step e res sol) pes st =
   fold (process_step e res sol) (filter (\<lambda>pe. find_assignment sol pe \<noteq> None) pes) st"
proof (induction pes arbitrary: st)
  case Nil
  show ?case by simp
next
  case (Cons pe pes)
  show ?case
  proof (cases "find_assignment sol pe")
    case None
    then show ?thesis
      using Cons.IH by (simp add: process_step_def)
  next
    case (Some a)
    then show ?thesis
      using Cons.IH by simp
  qed
qed

lemma tokens_drawn_snoc:
  "tokens_drawn res sol (xs @ [x]) =
   tokens_drawn res sol xs + (if find_realized_by res (assignment_of sol x) = None then 1 else 0)"
  by (simp add: tokens_drawn_def)

lemma re_id_of_append:
  "j < length xs \<Longrightarrow> re_id_of e res sol (xs @ ys) j = re_id_of e res sol xs j"
  by (simp add: re_id_of_def nth_append cong: option.case_cong)

lemma step_of_append:
  "j < length xs \<Longrightarrow> step_of e res sol (xs @ ys) j = step_of e res sol xs j"
  by (simp add: step_of_def nth_append re_id_of_append)

lemma annotation_of_append:
  "j < length xs \<Longrightarrow> annotation_of e res sol (xs @ ys) j = annotation_of e res sol xs j"
  by (simp add: annotation_of_def nth_append re_id_of_append)

lemma process_step_assigned:
  assumes "find_assignment sol x \<noteq> None"
    and "step_counter st = length xs + 2"
    and "recipe_element_counter st = length xs + 1"
    and "uuid_calls st = tokens_drawn res sol xs"
  shows "process_step e res sol x st =
     \<lparr>step_counter = length xs + 3, recipe_element_counter = length xs + 2,
      steps = steps st @ [step_of e res sol (xs @ [x]) (length xs)],
      uuid_calls = tokens_drawn res sol (xs @ [x]),
      annotated = annotated st @ [annotation_of e res sol (xs @ [x]) (length xs)]\<rparr>"
proof -
  from assms(1) obtain a where a: "find_assignment sol x = Some a" by auto
  then have ao: "assignment_of sol x = a" by (rule assignment_of_find)
  show ?thesis
  proof (cases "find_realized_by res a")
    case None
    then show ?thesis
      using a ao assms(2-4)
      by (simp add: process_step_def Let_def step_of_def annotation_of_def re_id_of_def
          tokens_drawn_snoc)
  next
    case (Some r)
    then show ?thesis
      using a ao assms(2-4)
      by (simp add: process_step_def Let_def step_of_def annotation_of_def re_id_of_def
          tokens_drawn_snoc)
  qed
qed

lemma step_fold_assigned:
  "\<forall>pe \<in> set xs. find_assignment sol pe \<noteq> None \<Longrightarrow>
   fold (process_step e res sol) xs init_step_state =
     \<lparr>step_counter = length xs + 2, recipe_element_counter = length xs + 1,
      steps = \<lparr>s_id = ''S1'', s_recipe_element_id = ''Init'', s_description = ''Init''\<rparr>
                # map (step_of e res sol xs) [0..<length xs],
      uuid_calls = tokens_drawn res sol xs,
      annotated = map (annotation_of e res sol xs) [0..<length xs]\<rparr>"
proof (induction xs rule: rev_induct)
  case Nil
  show ?case by (simp add: init_step_state_def tokens_drawn_def)
next
  case (snoc x xs)
  let ?st = "fold (process_step e res sol) xs init_step_state"
  from snoc have st: "?st =
     \<lparr>step_counter = length xs + 2, recipe_element_counter = length xs + 1,
      steps = \<lparr>s_id = ''S1'', s_recipe_element_id = ''Init'', s_description = ''Init''\<rparr>
                # map (step_of e res sol xs) [0..<length xs],
      uuid_calls = tokens_drawn res sol xs,
      annotated = map (annotation_of e res sol xs) [0..<length xs]\<rparr>"
    by simp
  from snoc.prems have x: "find_assignment sol x \<noteq> None" by simp
  have "process_step e res sol x ?st =
     \<lparr>step_counter = length xs + 3, recipe_element_counter = length xs + 2,
      steps = steps ?st @ [step_of e res sol (xs @ [x]) (length xs)],
      uuid_calls = tokens_drawn res sol (xs @ [x]),
      annotated = annotated ?st @ [annotation_of e res sol (xs @ [x]) (length xs)]\<rparr>"
    by (rule process_step_assigned [OF x]) (simp_all add: st)
  then show ?case
    by (simp add: st step_of_append annotation_of_append)
qed

lemma step_pass_steps:
  "steps (step_pass e res sol gr) =
     \<lparr>s_id = ''S1'', s_recipe_element_id = ''Init'', s_description = ''Init''\<rparr>
       # map (step_of e res sol (assigned_elements sol gr)) [0..<length (assigned_elements sol gr)]
       @ [\<lparr>s_id = ''S'' @ str_nat (length (assigned_elements sol gr) + 2),
           s_recipe_element_id = ''End'', s_description = ''End''\<rparr>]"
proof -
  have "\<forall>pe \<in> set (assigned_elements sol gr). find_assignment sol pe \<noteq> None"
    by (simp add: assigned_elements_find)
  from step_fold_assigned [OF this, of e res]
  show ?thesis
    unfolding step_pass_def init_step_state_def [symmetric]
    by (subst step_fold_filter) (simp add: Let_def assigned_elements_find)
qed

lemma step_pass_annotated:
  "annotated (step_pass e res sol gr) =
     map (annotation_of e res sol (assigned_elements sol gr)) [0..<length (assigned_elements sol gr)]"
proof -
  have "\<forall>pe \<in> set (assigned_elements sol gr). find_assignment sol pe \<noteq> None"
    by (simp add: assigned_elements_find)
  from step_fold_assigned [OF this, of e res]
  show ?thesis
    unfolding step_pass_def init_step_state_def [symmetric]
    by (subst step_fold_filter) (simp add: Let_def assigned_elements_find)
qed

lemma length_step_pass:
  "length (steps (step_pass e res sol gr)) = length (assigned_elements sol gr) + 2"
  by (simp add: step_pass_steps)

lemma str_nat_1: "str_nat (Suc 0) = ''1''"
  by (simp add: str_nat.simps digit_char_def)

lemma step_pass_s_id:
  assumes "k < length (steps (step_pass e res sol gr))"
  shows "s_id (steps (step_pass e res sol gr) ! k) = ''S'' @ str_nat (k + 1)"
proof -
  let ?n = "length (assigned_elements sol gr)"
  from assms have k: "k < ?n + 2" by (simp add: length_step_pass)
  consider "k = 0" | "1 \<le> k \<and> k \<le> ?n" | "k = ?n + 1" using k by linarith
  then show ?thesis
  proof cases
    case 1
    then show ?thesis by (simp add: step_pass_steps str_nat_1)
  next
    case 2
    then obtain j where j: "k = Suc j" "j < ?n" by (cases k) auto
    then show ?thesis
      by (simp add: step_pass_steps nth_append step_of_def)
  next
    case 3
    then show ?thesis
      by (simp add: step_pass_steps nth_append)
  qed
qed


subsection \<open>Links and transitions\<close>


lemma fold_link_round:
  "fold (link_round ss) [0..<n] (1, []) = (2 * n + 1, concat (map (link_pair ss) [0..<n]))"
  by (induction n) (simp_all add: link_round_def link_pair_def)

lemma make_links_pairs:
  "make_links ss = concat (map (link_pair ss) [0..<length ss - 1])"
  unfolding make_links_def fold_link_round by simp

lemma length_link_pairs: "length (concat (map (link_pair ss) [0..<n])) = 2 * n"
  by (induction n) (simp_all add: link_pair_def)

lemma nth_link_pairs:
  "i < n \<Longrightarrow>
   concat (map (link_pair ss) [0..<n]) ! (2 * i) = link_pair ss i ! 0 \<and>
   concat (map (link_pair ss) [0..<n]) ! (2 * i + 1) = link_pair ss i ! 1"
proof (induction n)
  case 0
  then show ?case by simp
next
  case (Suc n)
  show ?case
  proof (cases "i < n")
    case True
    with Suc.IH show ?thesis
      by (simp add: nth_append length_link_pairs)
  next
    case False
    with Suc.prems have "i = n" by simp
    then show ?thesis
      by (simp add: nth_append length_link_pairs)
  qed
qed

lemma length_make_links: "length (make_links ss) = 2 * (length ss - 1)"
  by (simp add: make_links_pairs length_link_pairs)

lemma length_make_transitions: "length (make_transitions ss) = length ss - 1"
  by (simp add: make_transitions_def)

lemma nth_make_transitions:
  "i < length ss - 1 \<Longrightarrow> make_transitions ss ! i = make_transition ss (i + 1)"
  by (simp add: make_transitions_def)


subsection \<open>The generator\<close>

lemma generate_Inr:
  "optimal_solution solutions opt = Some sol \<Longrightarrow>
   xml_document (build_document e res sol (optimal_solution_id opt) gr) \<Longrightarrow>
   generate_b2mml_master_recipe e res solutions opt gr =
     Inr (build_document e res sol (optimal_solution_id opt) gr)"
  by (simp add: generate_b2mml_master_recipe_def serialise_def)

lemma generate_InrD:
  "generate_b2mml_master_recipe e res solutions opt gr = Inr doc \<Longrightarrow>
   \<exists>sol. optimal_solution solutions opt = Some sol \<and>
         doc = build_document e res sol (optimal_solution_id opt) gr"
  by (auto simp: generate_b2mml_master_recipe_def serialise_def split: option.splits if_splits)

lemma generate_doc:
  "generate_b2mml_master_recipe e res solutions opt gr = Inr doc \<Longrightarrow>
   optimal_solution solutions opt = Some sol \<Longrightarrow>
   doc = build_document e res sol (optimal_solution_id opt) gr"
  by (auto simp: generate_b2mml_master_recipe_def serialise_def split: if_splits)

lemma generate_serialise:
  "optimal_solution solutions opt = Some sol \<Longrightarrow>
   generate_b2mml_master_recipe e res solutions opt gr =
     (if xml_document (build_document e res sol (optimal_solution_id opt) gr)
      then Inr (build_document e res sol (optimal_solution_id opt) gr) else Inl ExpatError)"
  by (simp add: generate_b2mml_master_recipe_def serialise_def)

lemma build_document_fields:
  "Steps (build_document e res sol sid gr) = steps (step_pass e res sol gr)"
  "Links (build_document e res sol sid gr) = make_links (steps (step_pass e res sol gr))"
  "Transitions (build_document e res sol sid gr) = make_transitions (steps (step_pass e res sol gr))"
  "Formula (build_document e res sol sid gr) = formula (formula_pass (str_lower e) res sol gr)"
  "RecipeElements (build_document e res sol sid gr) =
     make_recipe_elements (param_mapping (formula_pass (str_lower e) res sol gr)) sol
       (annotated (step_pass e res sol gr))"
  by (simp_all add: build_document_def Let_def)

subsection \<open>The formula section of a document\<close>

lemma formula_pass_formula:
  "formula (formula_pass lower res sol gr) =
     map (entry_of lower res sol (assigned_parameters sol gr)) [0..<length (assigned_parameters sol gr)]"
  by (simp add: formula_pass_flat allocate_formula)

lemma length_formula_pass:
  "length (formula (formula_pass lower res sol gr)) = length (assigned_parameters sol gr)"
  by (simp add: formula_pass_formula)

lemma nth_formula_pass:
  "k < length (assigned_parameters sol gr) \<Longrightarrow>
   formula (formula_pass lower res sol gr) ! k = entry_of lower res sol (assigned_parameters sol gr) k"
  by (simp add: formula_pass_formula)

subsection \<open>The recipe-element section\<close>

lemma operation_element_annotation:
  assumes "j < length xs" and "find_assignment sol (xs ! j) \<noteq> None"
  shows "operation_element pm sol (annotation_of e res sol xs j) = [operation_of pm e res sol xs j]"
proof -
  from assms(2) obtain a where a: "find_assignment sol (xs ! j) = Some a" by auto
  then have "assignment_of sol (xs ! j) = a" by (rule assignment_of_find)
  with a show ?thesis
    by (simp add: operation_element_def annotation_of_def operation_of_def)
qed

lemma annotations_sorted:
  "sort_key (\<lambda>x. recipe_element_number (snd x)) (map (annotation_of e res sol xs) [0..<n]) =
   map (annotation_of e res sol xs) [0..<n]"
proof (rule sort_key_id_if_sorted)
  have "map (\<lambda>x. recipe_element_number (snd x)) (map (annotation_of e res sol xs) [0..<n]) =
      map Suc [0..<n]"
    by (simp add: annotation_of_def)
  then have eq: "map (\<lambda>x. recipe_element_number (snd x)) (map (annotation_of e res sol xs) [0..<n]) =
      [Suc 0..<Suc n]"
    by (simp only: map_Suc_upt)
  show "sorted (map (\<lambda>x. recipe_element_number (snd x))
      (map (annotation_of e res sol xs) [0..<n]))"
    unfolding eq by (rule sorted_upt)
qed

lemma operation_elements_assigned:
  assumes "\<forall>pe \<in> set xs. find_assignment sol pe \<noteq> None"
  shows "operation_elements pm sol (map (annotation_of e res sol xs) [0..<length xs]) =
     map (operation_of pm e res sol xs) [0..<length xs]"
proof -
  have "map (operation_element pm sol) (map (annotation_of e res sol xs) [0..<length xs]) =
      map (\<lambda>j. [operation_of pm e res sol xs j]) [0..<length xs]"
    using assms by (simp add: operation_element_annotation)
  then show ?thesis
    by (simp add: operation_elements_def annotations_sorted del: map_map)
qed

lemma recipe_elements_document:
  "RecipeElements (build_document e res sol sid gr) =
     [marker_element ''Begin'' ''Init'', marker_element ''End'' ''End''] @
     map (operation_of (param_mapping (formula_pass (str_lower e) res sol gr)) e res sol (assigned_elements sol gr))
       [0..<length (assigned_elements sol gr)]"
proof -
  have "\<forall>pe \<in> set (assigned_elements sol gr). find_assignment sol pe \<noteq> None"
    by (simp add: assigned_elements_find)
  from operation_elements_assigned [OF this] show ?thesis
    by (simp add: build_document_fields make_recipe_elements_def step_pass_annotated)
qed

lemma chunks_concat: "chunks (map length xss) (concat xss) = xss"
  by (induction xss) simp_all

lemma param_mapping_dom:
  "dom (param_mapping (formula_pass lower res sol gr)) = p_ID ` snd ` set (assigned_parameters sol gr)"
  by (simp add: formula_pass_flat allocate_mapping_dom)

lemma parameter_refs_assigned:
  assumes "pe \<in> set (assigned_elements sol gr)"
  shows "parameter_refs (param_mapping (formula_pass lower res sol gr)) pe =
     map (\<lambda>p. the (param_mapping (formula_pass lower res sol gr) (p_ID p))) (pe_Parameters pe)"
proof -
  have "p_ID p \<in> dom (param_mapping (formula_pass lower res sol gr))" if "p \<in> set (pe_Parameters pe)" for p
  proof -
    from that assms have "(pe, p) \<in> set (assigned_parameters sol gr)"
      by (auto simp: assigned_parameters_def)
    then have "p_ID (snd (pe, p)) \<in> p_ID ` snd ` set (assigned_parameters sol gr)"
      by (intro imageI)
    then show ?thesis
      by (simp add: param_mapping_dom)
  qed
  then have "filter (\<lambda>p. param_mapping (formula_pass lower res sol gr) (p_ID p) \<noteq> None) (pe_Parameters pe)
      = pe_Parameters pe"
    by (auto simp: filter_id_conv)
  then show ?thesis
    by (simp add: parameter_refs_def)
qed

lemma refs_document:
  "map re_Parameters (drop 2 (RecipeElements (build_document e res sol sid gr))) =
     map (\<lambda>pe. map (\<lambda>p. the (param_mapping (formula_pass (str_lower e) res sol gr) (p_ID p))) (pe_Parameters pe))
       (assigned_elements sol gr)"
proof -
  let ?xs = "assigned_elements sol gr"
  let ?pm = "param_mapping (formula_pass (str_lower e) res sol gr)"
  have "map re_Parameters (drop 2 (RecipeElements (build_document e res sol sid gr))) =
      map (\<lambda>j. parameter_refs ?pm (?xs ! j)) [0..<length ?xs]"
    by (simp add: recipe_elements_document operation_of_def)
  also have "\<dots> = map (\<lambda>j. map (\<lambda>p. the (?pm (p_ID p))) (pe_Parameters (?xs ! j))) [0..<length ?xs]"
    by (simp add: parameter_refs_assigned)
  also have "\<dots> = map (\<lambda>pe. map (\<lambda>p. the (?pm (p_ID p))) (pe_Parameters pe)) ?xs"
    by (rule nth_equalityI) simp_all
  finally show ?thesis .
qed

lemma mapping_distinct:
  assumes "distinct (map (\<lambda>x. p_ID (snd x)) (assigned_parameters sol gr))"
  shows "map (\<lambda>x. the (param_mapping (formula_pass lower res sol gr) (p_ID (snd x))))
       (assigned_parameters sol gr) = map fp_ID (formula (formula_pass lower res sol gr))"
proof (rule nth_equalityI)
  show "length (map (\<lambda>x. the (param_mapping (formula_pass lower res sol gr) (p_ID (snd x))))
       (assigned_parameters sol gr)) = length (map fp_ID (formula (formula_pass lower res sol gr)))"
    by (simp add: length_formula_pass)
next
  fix k
  assume "k < length (map (\<lambda>x. the (param_mapping (formula_pass lower res sol gr) (p_ID (snd x))))
       (assigned_parameters sol gr))"
  then have k: "k < length (assigned_parameters sol gr)" by simp
  from allocate_mapping_distinct [OF assms k, of lower res sol]
  have "param_mapping (formula_pass lower res sol gr) (p_ID (snd (assigned_parameters sol gr ! k))) =
      Some (fp_ID (entry_of lower res sol (assigned_parameters sol gr) k))"
    by (simp only: formula_pass_flat)
  with k show "map (\<lambda>x. the (param_mapping (formula_pass lower res sol gr) (p_ID (snd x))))
       (assigned_parameters sol gr) ! k = map fp_ID (formula (formula_pass lower res sol gr)) ! k"
    by (simp add: length_formula_pass nth_formula_pass)
qed

lemma refs_are_chunks:
  assumes "distinct (map (\<lambda>x. p_ID (snd x)) (assigned_parameters sol gr))"
  shows "map re_Parameters (drop 2 (RecipeElements (build_document e res sol sid gr))) =
     chunks (map (\<lambda>pe. length (pe_Parameters pe)) (assigned_elements sol gr))
       (map fp_ID (Formula (build_document e res sol sid gr)))"
proof -
  let ?pm = "param_mapping (formula_pass (str_lower e) res sol gr)"
  let ?xss = "map (\<lambda>pe. map (\<lambda>p. the (?pm (p_ID p))) (pe_Parameters pe)) (assigned_elements sol gr)"
  have "map fp_ID (Formula (build_document e res sol sid gr)) =
      map (\<lambda>x. the (?pm (p_ID (snd x)))) (assigned_parameters sol gr)"
    by (simp add: build_document_fields mapping_distinct [OF assms])
  also have "\<dots> = concat ?xss"
    by (simp add: assigned_parameters_def map_concat comp_def)
  finally have f: "map fp_ID (Formula (build_document e res sol sid gr)) = concat ?xss" .
  have l: "map (\<lambda>pe. length (pe_Parameters pe)) (assigned_elements sol gr) = map length ?xss"
    by (simp add: comp_def)
  show ?thesis
    unfolding f l chunks_concat by (rule refs_document)
qed


subsection \<open>Texts that XML admits\<close>

lemma xml_text_iff: "xml_text s = (\<forall>c \<in> set s. xml_char c)"
  by (simp add: xml_text_def list_all_iff)

lemma xml_text_Nil: "xml_text []"
  by (simp add: xml_text_def)

lemma xml_text_Cons: "xml_text (c # s) = (xml_char c \<and> xml_text s)"
  by (simp add: xml_text_def)

lemma xml_text_append: "xml_text (s @ t) = (xml_text s \<and> xml_text t)"
  by (simp add: xml_text_def)

lemma xml_text_subset: "xml_text s \<Longrightarrow> set t \<subseteq> set s \<Longrightarrow> xml_text t"
  by (auto simp: xml_text_iff)

lemma xml_char_digit: "d < 10 \<Longrightarrow> xml_char (digit_char d)"
proof -
  assume "d < 10"
  then have "d \<in> {0,1,2,3,4,5,6,7,8,9}" by auto
  then show ?thesis
    by (auto simp: digit_char_def xml_char_def)
qed

lemma xml_text_str_nat: "xml_text (str_nat n)"
proof (induction n rule: str_nat.induct)
  case (1 n)
  show ?case
  proof (cases "n < 10")
    case True
    then show ?thesis
      by (subst str_nat.simps) (simp add: xml_text_Cons xml_text_Nil xml_char_digit)
  next
    case False
    then show ?thesis
      using 1 by (subst str_nat.simps)
        (simp add: xml_text_append xml_text_Cons xml_text_Nil xml_char_digit)
  qed
qed

lemma xml_text_replicate: "xml_char c \<Longrightarrow> xml_text (replicate k c)"
  by (simp add: xml_text_iff)

lemma xml_text_pad3: "xml_text (pad3 n)"
  by (simp add: pad3_def xml_text_append xml_text_str_nat xml_text_replicate xml_char_def)

lemma xml_text_str_int: "xml_text (str_int i)"
  by (simp add: str_int_def xml_text_Cons xml_text_str_nat xml_char_def)

lemma set_remove_all: "set (remove_all old s) \<subseteq> set s"
proof (induction old s rule: remove_all.induct)
  case (1 old)
  show ?case by simp
next
  case (2 old c cs)
  show ?case
  proof (cases "old \<noteq> [] \<and> startswith (c # cs) old")
    case True
    with 2(1) have "set (remove_all old (drop (length old) (c # cs))) \<subseteq> set (drop (length old) (c # cs))"
      by simp
    also have "\<dots> \<subseteq> set (c # cs)"
      by (rule set_drop_subset)
    finally show ?thesis
      using True by simp
  next
    case False
    with 2(2) show ?thesis
      by auto
  qed
qed

lemma xml_text_remove_all: "xml_text s \<Longrightarrow> xml_text (remove_all old s)"
  by (rule xml_text_subset [OF _ set_remove_all])

lemma xml_text_resource_short: "xml_text (resource a) \<Longrightarrow> xml_text (resource_short a)"
  by (simp add: resource_short_def xml_text_remove_all)

lemma xml_text_replace_char: "xml_text s \<Longrightarrow> xml_char b \<Longrightarrow> xml_text (replace_char a b s)"
  by (auto simp: replace_char_def xml_text_iff)

lemma xml_text_strip_operator: "xml_text s \<Longrightarrow> xml_text (strip_operator s)"
proof -
  assume s: "xml_text s"
  have "set (drop 2 s) \<subseteq> set s" by (rule set_drop_subset)
  with s have "xml_text (drop 2 s)" by (rule xml_text_subset)
  with s show ?thesis by (simp add: strip_operator_def)
qed

lemma xml_text_map_data_type: "xml_text s \<Longrightarrow> xml_text (map_data_type s)"
  by (simp add: map_data_type_def xml_text_Cons xml_text_Nil xml_char_def)

lemma xml_text_map_unit: "xml_text s \<Longrightarrow> xml_text (map_unit s)"
proof -
  assume s: "xml_text s"
  have "set (rev (takeWhile (\<lambda>c. c \<noteq> CHR ''/'') (rev s))) \<subseteq> set s"
    using set_takeWhileD [of _ "\<lambda>c. c \<noteq> CHR ''/''" "rev s"] by auto
  with s have "xml_text (rev (takeWhile (\<lambda>c. c \<noteq> CHR ''/'') (rev s)))"
    by (rule xml_text_subset)
  with s show ?thesis
    by (simp add: map_unit_def xml_text_Cons xml_text_Nil xml_char_def)
qed

lemma xml_text_pe_short: "xml_text s \<Longrightarrow> xml_text (pe_short s)"
  by (simp add: pe_short_def xml_text_Cons xml_text_Nil xml_char_def)

lemma xml_opt_None: "xml_opt None"
  by (simp add: xml_opt_def)

lemma xml_opt_find_property:
  "list_all (\<lambda>p. xml_opt (propertyRealizedBy p)) ps \<Longrightarrow> find P ps = Some p \<Longrightarrow>
   xml_opt (propertyRealizedBy p)"
  by (auto simp: list_all_iff find_Some_iff)

lemma xml_opt_scan_capability_data:
  "list_all xml_capability_data cds \<Longrightarrow> xml_opt (scan_capability_data lower cds cname pname)"
proof (induction cds)
  case Nil
  show ?case by (simp add: xml_opt_None)
next
  case (Cons cd cds)
  from Cons.prems have ps: "list_all (\<lambda>p. xml_opt (propertyRealizedBy p)) (properties cd)"
    by (simp add: xml_capability_data_def)
  from Cons have rest: "xml_opt (scan_capability_data lower cds cname pname)"
    by simp
  show ?case
    using rest xml_opt_find_property [OF ps]
    by (auto split: option.splits)
qed

lemma xml_opt_find_property_realized_by:
  "xml_assignment res a \<Longrightarrow> xml_opt (find_property_realized_by lower res (resource a) cname pname)"
  by (auto simp: find_property_realized_by_def xml_assignment_def xml_opt_None
      xml_opt_scan_capability_data split: option.splits)

lemma xml_opt_match_properties:
  "xml_assignment res a \<Longrightarrow> xml_opt param_id \<Longrightarrow>
   xml_opt (match_properties lower res a param cd mps param_id)"
  by (induction mps) (simp_all add: xml_opt_find_property_realized_by)

lemma xml_opt_match_details:
  "xml_assignment res a \<Longrightarrow> xml_opt param_id \<Longrightarrow>
   xml_opt (match_details lower res a param cds param_id)"
  by (induction cds arbitrary: param_id) (simp_all add: Let_def xml_opt_match_properties)

lemma xml_opt_resolve_param_id:
  "xml_assignment res a \<Longrightarrow> xml_opt (resolve_param_id lower res a pe param)"
  by (simp add: resolve_param_id_def xml_opt_find_property_realized_by xml_opt_match_details
      xml_opt_None)

lemma xml_text_or_null: "xml_opt x \<Longrightarrow> xml_text (or_null x)"
  by (cases x) (simp_all add: or_null_def truthy_def xml_opt_def xml_text_Cons xml_text_Nil xml_char_def)

lemma xml_formula_entry:
  "xml_assignment res a \<Longrightarrow> xml_parameter param \<Longrightarrow>
   xml_formula_parameter (formula_entry lower res a pe param n)"
  by (simp add: xml_formula_parameter_def formula_entry_def formatted_param_id_def
      xml_text_append xml_text_Cons xml_text_Nil xml_text_pad3 xml_text_or_null
      xml_opt_resolve_param_id xml_text_resource_short xml_text_replace_char
      xml_text_strip_operator xml_text_map_data_type xml_text_map_unit xml_parameter_def
      xml_assignment_def xml_char_def)

lemma xml_text_scan_realized_by:
  "list_all xml_capability_data cds \<Longrightarrow> scan_realized_by cds caps = Some r \<Longrightarrow> xml_text r"
proof (induction cds)
  case Nil
  then show ?case by simp
next
  case (Cons cd cds)
  show ?case
  proof (cases "list_ex (\<lambda>cap. cap \<in> set caps) (capability cd) \<and> realized_by cd \<noteq> []")
    case True
    with Cons.prems(2) have r: "r = hd (realized_by cd)" by simp
    from True have "hd (realized_by cd) \<in> set (realized_by cd)" by simp
    with Cons.prems(1) show ?thesis
      by (simp add: r xml_capability_data_def list_all_iff)
  next
    case False
    with Cons show ?thesis by simp
  qed
qed

lemma xml_text_find_realized_by:
  "xml_assignment res a \<Longrightarrow> find_realized_by res a = Some r \<Longrightarrow> xml_text r"
  by (auto simp: find_realized_by_def xml_assignment_def split: option.splits
      dest: xml_text_scan_realized_by)

lemma xml_text_first_capability_name:
  "xml_assignment res a \<Longrightarrow> xml_text (first_capability_name a)"
proof (cases "find (\<lambda>cap_detail. cd_capability_name cap_detail \<noteq> []) (capability_details a)")
  case None
  then show ?thesis
    by (simp add: first_capability_name_def xml_text_Cons xml_text_Nil xml_char_def)
next
  case (Some cd)
  assume a: "xml_assignment res a"
  from Some have "cd \<in> set (capability_details a)"
    by (auto simp: find_Some_iff)
  with a have "xml_text (cd_capability_name cd)"
    by (simp add: xml_assignment_def list_all_iff)
  with Some show ?thesis
    by (simp add: first_capability_name_def)
qed

lemma tokens_drawn_le: "tokens_drawn res sol xs \<le> length xs"
  by (simp add: tokens_drawn_def)

lemma xml_text_re_id_of:
  assumes "xml_assignment res (assignment_of sol (xs ! j))"
    and "xml_text (uuid4 e (tokens_drawn res sol (take j xs)))"
  shows "xml_text (re_id_of e res sol xs j)"
  using assms
  by (auto simp: re_id_of_def xml_text_append xml_text_Cons xml_text_Nil xml_text_pad3
      xml_char_def split: option.splits dest: xml_text_find_realized_by)

lemma xml_step_of:
  assumes "xml_assignment res (assignment_of sol (xs ! j))"
    and "xml_text (uuid4 e (tokens_drawn res sol (take j xs)))"
    and "xml_text (pe_Description (xs ! j))"
  shows "xml_step (step_of e res sol xs j)"
proof -
  from assms(1) have "xml_text (resource (assignment_of sol (xs ! j)))"
    by (simp add: xml_assignment_def)
  then have r: "xml_text (resource_short (assignment_of sol (xs ! j)))"
    by (rule xml_text_resource_short)
  from assms(1) have c: "xml_text (first_capability_name (assignment_of sol (xs ! j)))"
    by (rule xml_text_first_capability_name)
  from r c assms(3) xml_text_re_id_of [OF assms(1,2)] show ?thesis
    by (simp add: xml_step_def step_of_def xml_text_append xml_text_Cons xml_text_Nil
        xml_text_pad3 xml_text_str_nat xml_char_def)
qed

lemma xml_operation_of:
  assumes "xml_assignment res (assignment_of sol (xs ! j))"
    and "xml_text (uuid4 e (tokens_drawn res sol (take j xs)))"
    and "xml_text (pe_Description (xs ! j))"
    and "list_all xml_text (parameter_refs pm (xs ! j))"
  shows "xml_recipe_element (operation_of pm e res sol xs j)"
proof -
  from assms(1) have "xml_text (resource (assignment_of sol (xs ! j)))"
    by (simp add: xml_assignment_def)
  then have r: "xml_text (resource_short (assignment_of sol (xs ! j)))"
    by (rule xml_text_resource_short)
  from assms(1) have c: "xml_text (first_capability_name (assignment_of sol (xs ! j)))"
    by (rule xml_text_first_capability_name)
  from assms(3) have d: "xml_text (pe_short (pe_Description (xs ! j)))"
    by (rule xml_text_pe_short)
  from r c d assms(4) xml_text_re_id_of [OF assms(1,2)] show ?thesis
    by (simp add: xml_recipe_element_def operation_of_def xml_opt_def xml_text_append
        xml_text_Cons xml_text_Nil xml_char_def)
qed

lemma inputs_ok_assigned:
  assumes "inputs_ok e res sol gr" and "pe \<in> set (assigned_elements sol gr)"
  shows "xml_process_element pe" and "xml_assignment res (assignment_of sol pe)"
proof -
  from assms(2) have "pe \<in> set (ProcessElements gr)"
    by (simp add: assigned_elements_def)
  with assms(1) show "xml_process_element pe"
    by (simp add: inputs_ok_def list_all_iff)
  from assigned_has_assignment [OF assms(2)] have "assignment_of sol pe \<in> set (assignments sol)"
    by (rule find_assignment_set)
  with assms(1) show "xml_assignment res (assignment_of sol pe)"
    by (simp add: inputs_ok_def list_all_iff)
qed

lemma assigned_parameters_nth:
  assumes "k < length (assigned_parameters sol gr)"
  shows "fst (assigned_parameters sol gr ! k) \<in> set (assigned_elements sol gr)"
    and "snd (assigned_parameters sol gr ! k) \<in> set (pe_Parameters (fst (assigned_parameters sol gr ! k)))"
proof -
  from assms have "assigned_parameters sol gr ! k \<in> set (assigned_parameters sol gr)"
    by simp
  then obtain pe p where x: "assigned_parameters sol gr ! k = (pe, p)"
    and "pe \<in> set (assigned_elements sol gr)" "p \<in> set (pe_Parameters pe)"
    by (auto simp: assigned_parameters_def)
  then show "fst (assigned_parameters sol gr ! k) \<in> set (assigned_elements sol gr)"
    and "snd (assigned_parameters sol gr ! k) \<in> set (pe_Parameters (fst (assigned_parameters sol gr ! k)))"
    by simp_all
qed

lemma xml_formula:
  assumes "inputs_ok e res sol gr"
  shows "list_all xml_formula_parameter (formula (formula_pass lower res sol gr))"
proof -
  have "xml_formula_parameter (entry_of lower res sol (assigned_parameters sol gr) k)"
    if k: "k < length (assigned_parameters sol gr)" for k
  proof -
    let ?pe = "fst (assigned_parameters sol gr ! k)"
    let ?p = "snd (assigned_parameters sol gr ! k)"
    from assigned_parameters_nth [OF k] have pe: "?pe \<in> set (assigned_elements sol gr)"
      and p: "?p \<in> set (pe_Parameters ?pe)" by simp_all
    from inputs_ok_assigned [OF assms pe] p have "xml_assignment res (assignment_of sol ?pe)"
      and "xml_parameter ?p"
      by (simp_all add: xml_process_element_def list_all_iff)
    then show ?thesis
      unfolding entry_of_def by (rule xml_formula_entry)
  qed
  then show ?thesis
    by (simp add: formula_pass_formula list_all_iff)
qed

lemma allocate_mapping_ran:
  "param_mapping (fold (allocate lower res sol) xs init_formula_state) key = Some v \<Longrightarrow>
   v \<in> fp_ID ` set (formula (fold (allocate lower res sol) xs init_formula_state))"
proof (induction xs rule: rev_induct)
  case Nil
  then show ?case by (simp add: init_formula_state_def)
next
  case (snoc x xs)
  then show ?case
    by (auto simp: allocate_fields split: if_splits)
qed

lemma xml_parameter_refs:
  assumes "inputs_ok e res sol gr"
  shows "list_all xml_text (parameter_refs (param_mapping (formula_pass lower res sol gr)) pe)"
proof -
  have "xml_text v" if "param_mapping (formula_pass lower res sol gr) key = Some v" for key v
  proof -
    from that have "v \<in> fp_ID ` set (formula (formula_pass lower res sol gr))"
      unfolding formula_pass_flat by (rule allocate_mapping_ran)
    with xml_formula [OF assms, of lower] show ?thesis
      by (auto simp: list_all_iff xml_formula_parameter_def)
  qed
  then show ?thesis
    by (auto simp: parameter_refs_def list_all_iff)
qed

lemma inputs_ok_token:
  assumes "inputs_ok e res sol gr" and "j < length (assigned_elements sol gr)"
  shows "xml_text (uuid4 e (tokens_drawn res sol (take j (assigned_elements sol gr))))"
proof -
  have "tokens_drawn res sol (take j (assigned_elements sol gr)) \<le> j"
    using tokens_drawn_le [of res sol "take j (assigned_elements sol gr)"] by simp
  also have "j < length (assigned_elements sol gr)" by (rule assms(2))
  also have "length (assigned_elements sol gr) \<le> length (ProcessElements gr)"
    by (simp add: assigned_elements_def)
  finally have "tokens_drawn res sol (take j (assigned_elements sol gr)) < length (ProcessElements gr)" .
  with assms(1) show ?thesis
    by (simp add: inputs_ok_def list_all_iff)
qed

lemma xml_steps:
  assumes "inputs_ok e res sol gr"
  shows "list_all xml_step (steps (step_pass e res sol gr))"
proof -
  let ?xs = "assigned_elements sol gr"
  have "xml_step (step_of e res sol ?xs j)" if j: "j < length ?xs" for j
  proof -
    from j have pe: "?xs ! j \<in> set ?xs" by simp
    from inputs_ok_assigned [OF assms pe] have "xml_assignment res (assignment_of sol (?xs ! j))"
      and "xml_text (pe_Description (?xs ! j))"
      by (simp_all add: xml_process_element_def)
    with inputs_ok_token [OF assms j] show ?thesis
      by (intro xml_step_of)
  qed
  then show ?thesis
    by (simp add: step_pass_steps list_all_iff xml_step_def xml_text_Cons xml_text_Nil
        xml_text_str_nat xml_char_def)
qed

lemma xml_links:
  assumes "list_all xml_step ss"
  shows "list_all xml_link (make_links ss)"
proof -
  have "list_all xml_link (link_pair ss i)" if "i < length ss - 1" for i
  proof -
    from that have "ss ! i \<in> set ss" "ss ! (i + 1) \<in> set ss" by simp_all
    with assms have "xml_text (s_id (ss ! i))" "xml_text (s_id (ss ! (i + 1)))"
      by (simp_all add: list_all_iff xml_step_def)
    then show ?thesis
      by (simp add: link_pair_def mk_link_def xml_link_def xml_text_Cons xml_text_Nil
          xml_text_str_nat xml_char_def)
  qed
  then show ?thesis
    by (simp add: make_links_pairs list_all_iff)
qed

lemma xml_transitions:
  assumes "list_all xml_step ss"
  shows "list_all xml_transition (make_transitions ss)"
proof -
  have "xml_transition (make_transition ss i)" if "1 \<le> i" "i < length ss" for i
  proof -
    from that have "ss ! (i - 1) \<in> set ss" by simp
    with assms have "xml_text (s_description (ss ! (i - 1)))"
      by (simp add: list_all_iff xml_step_def)
    then show ?thesis
      by (simp add: make_transition_def xml_transition_def xml_text_append xml_text_Cons
          xml_text_Nil xml_text_str_nat xml_char_def)
  qed
  then show ?thesis
    by (simp add: make_transitions_def list_all_iff)
qed

lemma xml_recipe_elements:
  assumes "inputs_ok e res sol gr"
  shows "list_all xml_recipe_element (RecipeElements (build_document e res sol sid gr))"
proof -
  let ?xs = "assigned_elements sol gr"
  let ?pm = "param_mapping (formula_pass (str_lower e) res sol gr)"
  have "xml_recipe_element (operation_of ?pm e res sol ?xs j)" if j: "j < length ?xs" for j
  proof -
    from j have pe: "?xs ! j \<in> set ?xs" by simp
    from inputs_ok_assigned [OF assms pe] have "xml_assignment res (assignment_of sol (?xs ! j))"
      and "xml_text (pe_Description (?xs ! j))"
      by (simp_all add: xml_process_element_def)
    with inputs_ok_token [OF assms j] xml_parameter_refs [OF assms, of "str_lower e" "?xs ! j"]
    show ?thesis
      by (intro xml_operation_of)
  qed
  then show ?thesis
    by (simp add: recipe_elements_document list_all_iff marker_element_def
        xml_recipe_element_def xml_opt_def xml_text_Cons xml_text_Nil xml_char_def)
qed

lemma xml_header:
  assumes "inputs_ok e res sol gr"
  shows "xml_text (ListHeader_ID (build_document e res sol sid gr))"
    and "xml_text (CreateDate (build_document e res sol sid gr))"
    and "xml_text (Description (build_document e res sol sid gr))"
    and "xml_text (MasterRecipe_ID (build_document e res sol sid gr))"
    and "xml_text (Version (build_document e res sol sid gr))"
    and "xml_text (VersionDate (build_document e res sol sid gr))"
    and "xml_text (MasterRecipe_Description (build_document e res sol sid gr))"
    and "xml_text (ProductID (build_document e res sol sid gr))"
    and "xml_text (ProductName (build_document e res sol sid gr))"
    and "xml_text (EquipmentRequirement_ID (build_document e res sol sid gr))"
    and "xml_text (Constraint_ID (build_document e res sol sid gr))"
    and "xml_text (Constraint_Condition (build_document e res sol sid gr))"
    and "xml_text (EquipmentRequirement_Description (build_document e res sol sid gr))"
  using assms
  by (simp_all add: build_document_def Let_def inputs_ok_def xml_text_append xml_text_Cons
      xml_text_Nil xml_text_str_int xml_char_def)

lemma inputs_ok_document:
  assumes "inputs_ok e res sol gr"
  shows "xml_document (build_document e res sol sid gr)"
proof -
  note steps = xml_steps [OF assms]
  show ?thesis
    unfolding xml_document_def
    by (intro conjI xml_header [OF assms])
      (simp_all add: build_document_fields xml_formula [OF assms] steps xml_links [OF steps]
        xml_transitions [OF steps] xml_recipe_elements [OF assms, unfolded build_document_fields])
qed

lemma generate_returns:
  "optimal_solution solutions opt = Some sol \<Longrightarrow> inputs_ok e res sol gr \<Longrightarrow>
   generate_b2mml_master_recipe e res solutions opt gr =
     Inr (build_document e res sol (optimal_solution_id opt) gr)"
  by (simp add: generate_Inr inputs_ok_document)

subsection \<open>The examples\<close>

lemma str_lower_ex_env: "str_lower ex_env = ascii_lower"
  by (simp add: ex_env_def)

lemma ex_optimal: "optimal_solution [ex_sol] ex_opt = Some ex_sol"
  by (simp add: optimal_solution_def ex_sol_def ex_opt_def)

lemma ex2_optimal: "optimal_solution [ex_sol2] ex_opt = Some ex_sol2"
  by (simp add: optimal_solution_def ex_sol2_def ex_opt_def)

lemma ex3_optimal: "optimal_solution [ex_sol3] ex_opt = Some ex_sol3"
  by (simp add: optimal_solution_def ex_sol3_def ex_opt_def)

lemma ex_opt_id: "optimal_solution_id ex_opt = 4"
  by (simp add: ex_opt_def)

lemma ex_inputs_ok: "inputs_ok ex_env ex_res ex_sol ex_recipe"
  by code_simp

lemma ex2_inputs_ok: "inputs_ok ex_env ex_res2 ex_sol2 ex_recipe2"
  by code_simp

lemma ex3_inputs_ok: "inputs_ok ex_env ex_res ex_sol3 ex_recipe3"
  by code_simp

lemma ex4_inputs_ok: "inputs_ok ex_env ex_res ex_sol ex_recipe2"
  by code_simp

lemma ex5_inputs_ok: "inputs_ok ex_env Map.empty ex_sol2 ex_recipe2"
  by code_simp

lemma ex_generate:
  "generate_b2mml_master_recipe ex_env ex_res [ex_sol] ex_opt ex_recipe = Inr ex_doc"
  using generate_returns [OF ex_optimal ex_inputs_ok] by (simp add: ex_doc_def ex_opt_id)

lemma ex2_generate:
  "generate_b2mml_master_recipe ex_env ex_res2 [ex_sol2] ex_opt ex_recipe2 = Inr ex_doc2"
  using generate_returns [OF ex2_optimal ex2_inputs_ok] by (simp add: ex_doc2_def ex_opt_id)

lemma ex3_generate:
  "generate_b2mml_master_recipe ex_env ex_res [ex_sol3] ex_opt ex_recipe3 = Inr ex_doc3"
  using generate_returns [OF ex3_optimal ex3_inputs_ok] by (simp add: ex_doc3_def ex_opt_id)

lemma ex4_generate:
  "generate_b2mml_master_recipe ex_env ex_res [ex_sol] ex_opt ex_recipe2 = Inr ex_doc4"
  using generate_returns [OF ex_optimal ex4_inputs_ok] by (simp add: ex_doc4_def ex_opt_id)

lemma ex5_generate:
  "generate_b2mml_master_recipe ex_env Map.empty [ex_sol2] ex_opt ex_recipe2 = Inr ex_doc5"
  using generate_returns [OF ex2_optimal ex5_inputs_ok] by (simp add: ex_doc5_def ex_opt_id)

lemma ex_assigned: "assigned_elements ex_sol ex_recipe = [ex_heating]"
  by (simp add: assigned_elements_def ex_recipe_def ex_sol_def ex_heating_def ex_assignment_def)

lemma ex2_assigned: "assigned_elements ex_sol2 ex_recipe2 = [ex_dosing, ex_heating]"
  by (simp add: assigned_elements_def ex_recipe2_def ex_sol2_def ex_heating_def ex_dosing_def
      ex_assignment_def ex_dosing_assignment_def)

lemma ex4_assigned: "assigned_elements ex_sol ex_recipe2 = [ex_heating]"
  by (simp add: assigned_elements_def ex_recipe2_def ex_sol_def ex_heating_def ex_dosing_def
      ex_assignment_def)


lemma ex2_assigned_parameters:
  "assigned_parameters ex_sol2 ex_recipe2 = [(ex_dosing, ex_dosing_param), (ex_heating, ex_param)]"
  by (simp add: assigned_parameters_def ex2_assigned ex_heating_def ex_dosing_def)

lemma ex_assignment_of: "assignment_of ex_sol ex_heating = ex_assignment"
  by (simp add: assignment_of_def ex_sol_def ex_heating_def ex_assignment_def)

lemma ex2_assignment_of:
  "assignment_of ex_sol2 ex_dosing = ex_dosing_assignment"
  "assignment_of ex_sol2 ex_heating = ex_assignment"
  by (simp_all add: assignment_of_def ex_sol2_def ex_heating_def ex_dosing_def
      ex_assignment_def ex_dosing_assignment_def)

lemma str_nat_digits:
  "str_nat 1 = ''1''" "str_nat 2 = ''2''" "str_nat 3 = ''3''" "str_nat 4 = ''4''"
  "str_nat (Suc (Suc 0)) = ''2''" "str_nat (Suc (Suc (Suc 0))) = ''3''"
  by (simp_all add: str_nat.simps digit_char_def)

lemma pad3_1: "pad3 1 = ''001''" "pad3 (Suc 0) = ''001''"
  by (simp_all add: pad3_def str_nat.simps digit_char_def numeral_2_eq_2)

lemma ex_steps_length: "length (Steps ex_doc) = 3"
  by (simp add: ex_doc_def build_document_fields length_step_pass ex_assigned)

subsection \<open>Property resolution\<close>

lemma list_ex_capability: "list_ex (\<lambda>cap. cap = cname) caps = (cname \<in> set caps)"
  by (auto simp: list_ex_iff)

lemma find_exact_is_match:
  "find (\<lambda>p. property_name p = pname) ps = Some p \<Longrightarrow>
   list_ex (\<lambda>p. lower (property_name p) = lower pname) ps"
  by (auto simp: find_Some_iff list_ex_iff)

lemma find_match_None:
  "(find (\<lambda>p. lower (property_name p) = lower pname) ps = None) =
   (\<not> list_ex (\<lambda>p. lower (property_name p) = lower pname) ps)"
  by (auto simp: find_None_iff list_ex_iff)

lemma scan_capability_data_spec:
  "scan_capability_data lower cds cname pname =
     (case find (\<lambda>cd. accepted cname cd \<and>
                       list_ex (\<lambda>p. lower (property_name p) = lower pname) (properties cd)) cds of
        None \<Rightarrow> None
      | Some cd \<Rightarrow>
          (case find (\<lambda>p. property_name p = pname) (properties cd) of
             Some p \<Rightarrow> propertyRealizedBy p
           | None \<Rightarrow>
               (case find (\<lambda>p. lower (property_name p) = lower pname) (properties cd) of
                  Some p \<Rightarrow> propertyRealizedBy p
                | None \<Rightarrow> None)))"
proof (induction cds)
  case Nil
  show ?case by simp
next
  case (Cons cd cds)
  show ?case
  proof (cases "accepted cname cd")
    case False
    then show ?thesis
      using Cons.IH by (simp add: list_ex_capability accepted_def)
  next
    case acc: True
    show ?thesis
    proof (cases "find (\<lambda>p. property_name p = pname) (properties cd)")
      case (Some p)
      with acc find_exact_is_match [OF Some, where lower = lower] show ?thesis
        by (simp add: list_ex_capability accepted_def)
    next
      case exact: None
      show ?thesis
      proof (cases "find (\<lambda>p. lower (property_name p) = lower pname) (properties cd)")
        case None
        with acc exact Cons.IH show ?thesis
          using find_match_None [where lower = lower and pname = pname and ps = "properties cd"]
          by (simp add: list_ex_capability accepted_def)
      next
        case (Some p)
        with acc exact show ?thesis
          using find_match_None [where lower = lower and pname = pname and ps = "properties cd"]
          by (simp add: list_ex_capability accepted_def)
      qed
    qed
  qed
qed

lemma find_property_realized_by_spec:
  "find_property_realized_by lower res rname cname pname = resolve_spec lower res rname cname pname"
  by (simp add: find_property_realized_by_def resolve_spec_def scan_capability_data_spec
      split: option.splits)

lemma unknown_resource_unresolved:
  "res rname = None \<Longrightarrow> find_property_realized_by lower res rname cname pname = None"
  by (simp add: find_property_realized_by_def)

lemma match_properties_unknown:
  "res (resource a) = None \<Longrightarrow> match_properties lower res a param cd mps None = None"
  by (induction mps) (simp_all add: unknown_resource_unresolved)

lemma match_details_unknown:
  "res (resource a) = None \<Longrightarrow> match_details lower res a param cds None = None"
  by (induction cds) (simp_all add: match_properties_unknown Let_def truthy_def)

lemma resolve_param_id_unknown:
  "res (resource a) = None \<Longrightarrow> resolve_param_id lower res a pe param = None"
  by (simp add: resolve_param_id_def unknown_resource_unresolved match_details_unknown)

lemma or_null_None: "or_null None = ''null''"
  by (simp add: or_null_def truthy_def)


subsection \<open>Resolution of a parameter\<close>

lemma match_properties_find:
  "match_properties lower res a param cd mps param_id =
     (case find (\<lambda>mp. property_id mp = p_Key param \<and> property_unit mp = p_UnitOfMeasure param) mps of
        None \<Rightarrow> param_id
      | Some mp \<Rightarrow>
          find_property_realized_by lower res (resource a) (cd_capability_name cd) (mp_property_name mp))"
  by (induction mps) simp_all

lemma truthy_iff: "truthy r = (r \<noteq> None \<and> r \<noteq> Some [])"
  by (cases r) (simp_all add: truthy_def)

lemma first_reference_Cons:
  "first_reference (r # rs) = (if truthy r then the r else first_reference rs)"
  by (simp add: first_reference_def truthy_iff)

lemma match_details_first:
  "\<not> truthy param_id \<Longrightarrow>
   or_null (match_details lower res a param cds param_id) =
     first_reference (concat (map (\<lambda>cd.
       (case find (\<lambda>mp. property_id mp = p_Key param \<and> property_unit mp = p_UnitOfMeasure param)
               (matched_properties cd) of
          None \<Rightarrow> []
        | Some mp \<Rightarrow>
            [find_property_realized_by lower res (resource a) (cd_capability_name cd)
               (mp_property_name mp)])) cds))"
proof (induction cds arbitrary: param_id)
  case Nil
  then show ?case
    by (simp add: or_null_def first_reference_def)
next
  case (Cons cd cds)
  let ?m = "find (\<lambda>mp. property_id mp = p_Key param \<and> property_unit mp = p_UnitOfMeasure param)
      (matched_properties cd)"
  show ?case
  proof (cases ?m)
    case None
    then have "match_properties lower res a param cd (matched_properties cd) param_id = param_id"
      by (simp add: match_properties_find)
    with None Cons show ?thesis
      by simp
  next
    case (Some mp)
    let ?r = "find_property_realized_by lower res (resource a) (cd_capability_name cd)
        (mp_property_name mp)"
    from Some have r: "match_properties lower res a param cd (matched_properties cd) param_id = ?r"
      by (simp add: match_properties_find)
    let ?rest = "concat (map (\<lambda>cd.
       (case find (\<lambda>mp. property_id mp = p_Key param \<and> property_unit mp = p_UnitOfMeasure param)
               (matched_properties cd) of
          None \<Rightarrow> []
        | Some mp \<Rightarrow>
            [find_property_realized_by lower res (resource a) (cd_capability_name cd)
               (mp_property_name mp)])) cds)"
    have cands: "concat (map (\<lambda>cd.
       (case find (\<lambda>mp. property_id mp = p_Key param \<and> property_unit mp = p_UnitOfMeasure param)
               (matched_properties cd) of
          None \<Rightarrow> []
        | Some mp \<Rightarrow>
            [find_property_realized_by lower res (resource a) (cd_capability_name cd)
               (mp_property_name mp)])) (cd # cds)) = ?r # ?rest"
      using Some by simp
    show ?thesis
    proof (cases "truthy ?r")
      case True
      then have "match_details lower res a param (cd # cds) param_id = ?r"
        using r by (simp add: Let_def)
      moreover from True have "or_null ?r = the ?r"
        by (simp add: or_null_def)
      moreover from True have "first_reference (?r # ?rest) = the ?r"
        by (simp add: first_reference_Cons)
      ultimately show ?thesis
        by (simp only: cands)
    next
      case False
      then have "match_details lower res a param (cd # cds) param_id =
          match_details lower res a param cds ?r"
        using r by (simp add: Let_def)
      moreover from False have "first_reference (?r # ?rest) = first_reference ?rest"
        by (simp add: first_reference_Cons)
      ultimately show ?thesis
        using Cons.IH [OF False] by (simp only: cands)
    qed
  qed
qed

lemma generic_resolution:
  "or_null (match_details lower res a param (capability_details a) None) =
     first_reference (generic_candidates lower res a param)"
  unfolding generic_candidates_def by (rule match_details_first) (simp add: truthy_def)

lemma or_null_cases:
  "or_null x = (case x of None \<Rightarrow> ''null'' | Some r \<Rightarrow> if r = [] then ''null'' else r)"
  by (cases x) (simp_all add: or_null_def truthy_def)


subsection \<open>Gaps\<close>

text \<open>A process element without assignment leaves no trace in the document.\<close>

lemma build_document_assigned:
  assumes "gr_ID gr = gr_ID gr'" and "assigned_elements sol gr = assigned_elements sol gr'"
  shows "build_document e res sol sid gr = build_document e res sol sid gr'"
proof -
  have f: "formula_pass (str_lower e) res sol gr = formula_pass (str_lower e) res sol gr'"
    by (simp add: formula_pass_flat assigned_parameters_def assms(2))
  have s: "steps (step_pass e res sol gr) = steps (step_pass e res sol gr')"
    by (simp add: step_pass_steps assms(2))
  have a: "annotated (step_pass e res sol gr) = annotated (step_pass e res sol gr')"
    by (simp add: step_pass_annotated assms(2))
  show ?thesis
    by (simp add: build_document_def Let_def f s a assms(1))
qed

lemma assigned_elements_insert:
  assumes "\<forall>a \<in> set (assignments sol). step_id a \<noteq> pe_ID pe"
  shows "assigned_elements sol \<lparr>gr_ID = g, ProcessElements = xs @ pe # ys\<rparr> =
     assigned_elements sol \<lparr>gr_ID = g, ProcessElements = xs @ ys\<rparr>"
  using assms by (simp add: assigned_elements_def list_ex_iff)

text \<open>Taking resources out of the catalogue: what was resolved stays or becomes not-found.\<close>

lemma find_property_realized_by_restrict:
  "find_property_realized_by lower (res |` A) rname cname pname =
     (if rname \<in> A then find_property_realized_by lower res rname cname pname else None)"
  by (simp add: find_property_realized_by_def restrict_map_def)

lemma match_properties_restrict:
  "resource a \<in> A \<Longrightarrow>
   match_properties lower (res |` A) a param cd mps param_id =
     match_properties lower res a param cd mps param_id"
  by (induction mps) (simp_all add: find_property_realized_by_restrict)

lemma match_details_restrict:
  "resource a \<in> A \<Longrightarrow>
   match_details lower (res |` A) a param cds param_id = match_details lower res a param cds param_id"
  by (induction cds arbitrary: param_id) (simp_all add: match_properties_restrict Let_def)

lemma resolve_param_id_restrict:
  "resolve_param_id lower (res |` A) a pe param =
     (if resource a \<in> A then resolve_param_id lower res a pe param else None)"
proof (cases "resource a \<in> A")
  case True
  then show ?thesis
    by (simp add: resolve_param_id_def find_property_realized_by_restrict match_details_restrict)
next
  case False
  then have "(res |` A) (resource a) = None"
    by (simp add: restrict_map_def)
  then have "resolve_param_id lower (res |` A) a pe param = None"
    by (rule resolve_param_id_unknown)
  with False show ?thesis by simp
qed

lemma find_realized_by_restrict:
  "find_realized_by (res |` A) a = (if resource a \<in> A then find_realized_by res a else None)"
  by (simp add: find_realized_by_def restrict_map_def)

lemma xml_formula_entry_restrict:
  assumes "xml_formula_parameter (formula_entry lower res a pe param n)"
  shows "xml_formula_parameter (formula_entry lower (res |` A) a pe param n)"
proof (cases "resource a \<in> A")
  case True
  with assms show ?thesis
    by (simp add: formula_entry_def resolve_param_id_restrict)
next
  case False
  with assms show ?thesis
    by (simp add: formula_entry_def resolve_param_id_restrict xml_formula_parameter_def
        formatted_param_id_def or_null_None xml_text_append xml_text_Cons xml_text_Nil
        xml_text_pad3 xml_char_def)
qed

lemma xml_formula_restrict:
  assumes "list_all xml_formula_parameter (formula (formula_pass lower res sol gr))"
  shows "list_all xml_formula_parameter (formula (formula_pass lower (res |` A) sol gr))"
proof -
  have "xml_formula_parameter (entry_of lower (res |` A) sol (assigned_parameters sol gr) k)"
    if "k < length (assigned_parameters sol gr)" for k
  proof -
    from assms that have "xml_formula_parameter (entry_of lower res sol (assigned_parameters sol gr) k)"
      by (simp add: formula_pass_formula list_all_iff)
    then show ?thesis
      unfolding entry_of_def by (rule xml_formula_entry_restrict)
  qed
  then show ?thesis
    by (simp add: formula_pass_formula list_all_iff)
qed

lemma xml_parameter_refs_formula:
  assumes "list_all xml_formula_parameter (formula (formula_pass lower res sol gr))"
  shows "list_all xml_text (parameter_refs (param_mapping (formula_pass lower res sol gr)) pe)"
proof -
  have "xml_text v" if "param_mapping (formula_pass lower res sol gr) key = Some v" for key v
  proof -
    from that have "v \<in> fp_ID ` set (formula (formula_pass lower res sol gr))"
      unfolding formula_pass_flat by (rule allocate_mapping_ran)
    with assms show ?thesis
      by (auto simp: list_all_iff xml_formula_parameter_def)
  qed
  then show ?thesis
    by (auto simp: parameter_refs_def list_all_iff)
qed

lemma xml_text_re_id_of_restrict:
  assumes "xml_text (re_id_of e res sol xs j)"
    and "xml_text (uuid4 e (tokens_drawn (res |` A) sol (take j xs)))"
  shows "xml_text (re_id_of e (res |` A) sol xs j)"
proof (cases "find_realized_by (res |` A) (assignment_of sol (xs ! j))")
  case None
  with assms(2) show ?thesis
    by (simp add: re_id_of_def xml_text_append xml_text_Cons xml_text_Nil xml_text_pad3
        xml_char_def)
next
  case (Some r)
  then have "find_realized_by res (assignment_of sol (xs ! j)) = Some r"
    by (simp add: find_realized_by_restrict split: if_splits)
  with assms(1) Some show ?thesis
    by (simp add: re_id_of_def)
qed

lemma token_index_bound:
  assumes "list_all (\<lambda>k. xml_text (uuid4 e k)) [0..<length (ProcessElements gr)]"
    and "j < length (assigned_elements sol gr)"
  shows "xml_text (uuid4 e (tokens_drawn res sol (take j (assigned_elements sol gr))))"
proof -
  have "tokens_drawn res sol (take j (assigned_elements sol gr)) \<le> j"
    using tokens_drawn_le [of res sol "take j (assigned_elements sol gr)"] by simp
  also have "j < length (assigned_elements sol gr)" by (rule assms(2))
  also have "length (assigned_elements sol gr) \<le> length (ProcessElements gr)"
    by (simp add: assigned_elements_def)
  finally have "tokens_drawn res sol (take j (assigned_elements sol gr)) < length (ProcessElements gr)" .
  with assms(1) show ?thesis
    by (simp add: list_all_iff)
qed

lemma xml_document_restrict:
  assumes v: "xml_document (build_document e res sol sid gr)"
    and tok: "list_all (\<lambda>k. xml_text (uuid4 e k)) [0..<length (ProcessElements gr)]"
  shows "xml_document (build_document e (res |` A) sol sid gr)"
proof -
  let ?xs = "assigned_elements sol gr"
  let ?pm' = "param_mapping (formula_pass (str_lower e) (res |` A) sol gr)"
  from v have hdr: "xml_text (ListHeader_ID (build_document e (res |` A) sol sid gr))"
    "xml_text (CreateDate (build_document e (res |` A) sol sid gr))"
    "xml_text (Description (build_document e (res |` A) sol sid gr))"
    "xml_text (MasterRecipe_ID (build_document e (res |` A) sol sid gr))"
    "xml_text (Version (build_document e (res |` A) sol sid gr))"
    "xml_text (VersionDate (build_document e (res |` A) sol sid gr))"
    "xml_text (MasterRecipe_Description (build_document e (res |` A) sol sid gr))"
    "xml_text (ProductID (build_document e (res |` A) sol sid gr))"
    "xml_text (ProductName (build_document e (res |` A) sol sid gr))"
    "xml_text (EquipmentRequirement_ID (build_document e (res |` A) sol sid gr))"
    "xml_text (Constraint_ID (build_document e (res |` A) sol sid gr))"
    "xml_text (Constraint_Condition (build_document e (res |` A) sol sid gr))"
    "xml_text (EquipmentRequirement_Description (build_document e (res |` A) sol sid gr))"
    by (simp_all add: xml_document_def build_document_def Let_def)
  from v have f: "list_all xml_formula_parameter (formula (formula_pass (str_lower e) res sol gr))"
    and s: "list_all xml_step (steps (step_pass e res sol gr))"
    and r: "list_all xml_recipe_element (RecipeElements (build_document e res sol sid gr))"
    by (simp_all add: xml_document_def build_document_fields)
  have f': "list_all xml_formula_parameter (formula (formula_pass (str_lower e) (res |` A) sol gr))"
    using f by (rule xml_formula_restrict)
  have id': "xml_text (re_id_of e (res |` A) sol ?xs j)" if j: "j < length ?xs" for j
  proof -
    from s j have "xml_step (step_of e res sol ?xs j)"
      by (simp add: step_pass_steps list_all_iff)
    then have "xml_text (re_id_of e res sol ?xs j)"
      by (simp add: xml_step_def step_of_def)
    then show ?thesis
      using token_index_bound [OF tok j] by (rule xml_text_re_id_of_restrict)
  qed
  have s': "list_all xml_step (steps (step_pass e (res |` A) sol gr))"
  proof -
    have "xml_step (step_of e (res |` A) sol ?xs j)" if j: "j < length ?xs" for j
    proof -
      from s j have "xml_step (step_of e res sol ?xs j)"
        by (simp add: step_pass_steps list_all_iff)
      with id' [OF j] show ?thesis
        by (simp add: xml_step_def step_of_def)
    qed
    then show ?thesis
      by (simp add: step_pass_steps list_all_iff xml_step_def xml_text_Cons xml_text_Nil
          xml_text_str_nat xml_char_def)
  qed
  have r': "list_all xml_recipe_element (RecipeElements (build_document e (res |` A) sol sid gr))"
  proof -
    have "xml_recipe_element (operation_of ?pm' e (res |` A) sol ?xs j)" if j: "j < length ?xs" for j
    proof -
      from r j have "xml_recipe_element
          (operation_of (param_mapping (formula_pass (str_lower e) res sol gr)) e res sol ?xs j)"
        by (simp add: recipe_elements_document list_all_iff)
      with id' [OF j] xml_parameter_refs_formula [OF f', of "?xs ! j"] show ?thesis
        by (simp add: xml_recipe_element_def operation_of_def)
    qed
    then show ?thesis
      by (simp add: recipe_elements_document list_all_iff marker_element_def
          xml_recipe_element_def xml_opt_def xml_text_Cons xml_text_Nil xml_char_def)
  qed
  show ?thesis
    unfolding xml_document_def
    by (intro conjI hdr)
      (simp_all add: build_document_fields f' s' xml_links [OF s'] xml_transitions [OF s']
        r' [unfolded build_document_fields])
qed

subsection \<open>Ordinals and tokens\<close>

















subsection \<open>Identifiers across the sections\<close>

text \<open>
  C1, as the generator has it. When the parameters of the process elements that have a
  matching assignment carry pairwise distinct ids, the formula section holds exactly one
  entry, with one formatted identifier, for each of these parameters, in
  process-element-then-parameter order, and the parameter references of the operation
  element of each such process element are exactly the identifiers that the formula section
  holds for the parameters of that element, in order.
\<close>

theorem identifier_consistency:
  assumes "generate_b2mml_master_recipe e res solutions opt gr = Inr doc"
    and "optimal_solution solutions opt = Some sol"
    and "distinct (map (\<lambda>x. p_ID (snd x)) (assigned_parameters sol gr))"
  shows "Formula doc =
       map (entry_of (str_lower e) res sol (assigned_parameters sol gr)) [0..<length (assigned_parameters sol gr)]
     \<and> map re_Parameters (drop 2 (RecipeElements doc)) =
         chunks (map (\<lambda>pe. length (pe_Parameters pe)) (assigned_elements sol gr))
           (map fp_ID (Formula doc))"
proof -
  from assms(1,2) have doc: "doc = build_document e res sol (optimal_solution_id opt) gr"
    by (rule generate_doc)
  have "Formula doc =
       map (entry_of (str_lower e) res sol (assigned_parameters sol gr)) [0..<length (assigned_parameters sol gr)]"
    by (simp add: doc build_document_fields formula_pass_formula)
  moreover have "map re_Parameters (drop 2 (RecipeElements doc)) =
         chunks (map (\<lambda>pe. length (pe_Parameters pe)) (assigned_elements sol gr))
           (map fp_ID (Formula doc))"
    unfolding doc by (rule refs_are_chunks [OF assms(3)])
  ultimately show ?thesis by simp
qed

theorem identifier_consistency_witness:
  "map fp_ID (Formula ex_doc2) = [''001:ns=2;i=30'', ''002:ns=2;i=17'']
   \<and> map re_Parameters (drop 2 (RecipeElements ex_doc2)) = [[''001:ns=2;i=30''], [''002:ns=2;i=17'']]"
proof -
  have d: "distinct (map (\<lambda>x. p_ID (snd x)) (assigned_parameters ex_sol2 ex_recipe2))"
    by (simp add: ex2_assigned_parameters ex_dosing_param_def ex_param_def)
  have ids:
    "fp_ID (entry_of ascii_lower ex_res2 ex_sol2 [(ex_dosing, ex_dosing_param), (ex_heating, ex_param)] 0)
       = ''001:ns=2;i=30''"
    "fp_ID (entry_of ascii_lower ex_res2 ex_sol2 [(ex_dosing, ex_dosing_param), (ex_heating, ex_param)] (Suc 0))
       = ''002:ns=2;i=17''"
    by code_simp+
  have l: "length (pe_Parameters ex_dosing) = Suc 0" "length (pe_Parameters ex_heating) = Suc 0"
    by (simp_all add: ex_dosing_def ex_heating_def)
  from identifier_consistency [OF ex2_generate ex2_optimal d] show ?thesis
    by (simp add: ex2_assigned_parameters ex2_assigned ids l str_lower_ex_env)
qed

theorem identifier_consistency_counterexample:
  "generate_b2mml_master_recipe ex_env ex_res [ex_sol3] ex_opt ex_recipe3 = Inr ex_doc3
   \<and> map fp_ID (Formula ex_doc3) = [''001:ns=2;i=17'', ''002:ns=2;i=17'']
   \<and> map re_Parameters (drop 2 (RecipeElements ex_doc3)) = [[''002:ns=2;i=17''], [''002:ns=2;i=17'']]
   \<and> map re_Parameters (drop 2 (RecipeElements ex_doc3)) \<noteq>
       chunks (map (\<lambda>pe. length (pe_Parameters pe)) (assigned_elements ex_sol3 ex_recipe3))
         (map fp_ID (Formula ex_doc3))"
proof -
  have a: "map fp_ID (Formula ex_doc3) = [''001:ns=2;i=17'', ''002:ns=2;i=17'']"
    by code_simp
  have b: "map re_Parameters (drop 2 (RecipeElements ex_doc3)) =
      [[''002:ns=2;i=17''], [''002:ns=2;i=17'']]"
    by code_simp
  have c: "map (\<lambda>pe. length (pe_Parameters pe)) (assigned_elements ex_sol3 ex_recipe3) = [1, 1]"
    by code_simp
  show ?thesis
    by (simp add: ex3_generate a b c)
qed


subsection \<open>Counts of steps, transitions and links\<close>

text \<open>
  C2. For every compiled document, the number of steps is the number of process elements
  that have a matching assignment, that is, for which some assignment of the solution
  carries the id of the element as its step id, plus 2; the number of transitions is the
  number of steps minus 1; and the number of links is twice the number of transitions.
\<close>

theorem document_counts:
  assumes "generate_b2mml_master_recipe e res solutions opt gr = Inr doc"
    and "optimal_solution solutions opt = Some sol"
  shows "length (Steps doc) =
       length (filter (\<lambda>pe. \<exists>a \<in> set (assignments sol). step_id a = pe_ID pe) (ProcessElements gr)) + 2
     \<and> length (Transitions doc) = length (Steps doc) - 1
     \<and> length (Links doc) = 2 * length (Transitions doc)"
proof -
  from assms have doc: "doc = build_document e res sol (optimal_solution_id opt) gr"
    by (rule generate_doc)
  have "filter (\<lambda>pe. \<exists>a \<in> set (assignments sol). step_id a = pe_ID pe) (ProcessElements gr) =
      assigned_elements sol gr"
    by (simp add: assigned_elements_def list_ex_iff)
  then show ?thesis
    by (simp add: doc build_document_fields length_step_pass length_make_transitions
        length_make_links)
qed

theorem document_counts_witness:
  "length (ProcessElements ex_recipe2) = 2
   \<and> length (Steps ex_doc4) = 3 \<and> length (Transitions ex_doc4) = 2 \<and> length (Links ex_doc4) = 4"
proof -
  have "filter (\<lambda>pe. \<exists>a \<in> set (assignments ex_sol). step_id a = pe_ID pe) (ProcessElements ex_recipe2)
      = [ex_heating]"
    by (simp add: ex_recipe2_def ex_sol_def ex_heating_def ex_dosing_def ex_assignment_def)
  with document_counts [OF ex4_generate ex_optimal] show ?thesis
    by (simp add: ex_recipe2_def)
qed

subsection \<open>Order and numbering of the links\<close>

text \<open>
  C3. For a compiled document with N steps, each position \<open>i < N - 1\<close> of the step list
  (counted from 0) gives the pair of links step \<open>i\<close> to transition \<open>i + 1\<close> and transition
  \<open>i + 1\<close> to step \<open>i + 1\<close>; the pairs are emitted one after the other in this order, so
  that the links are L1 = S1 to T1, L2 = T1 to S2, L3 = S2 to T2, L4 = T2 to S3 and so on,
  numbered from 1 in the order of emission.
\<close>

theorem link_order_and_numbering:
  assumes "generate_b2mml_master_recipe e res solutions opt gr = Inr doc"
    and "i < length (Steps doc) - 1"
  shows "length (Links doc) = 2 * (length (Steps doc) - 1)
     \<and> s_id (Steps doc ! i) = ''S'' @ str_nat (i + 1)
     \<and> s_id (Steps doc ! (i + 1)) = ''S'' @ str_nat (i + 2)
     \<and> Links doc ! (2 * i) =
         \<lparr>l_ID = ''L'' @ str_nat (2 * i + 1),
          FromIDValue = ''S'' @ str_nat (i + 1), FromType = ''Step'',
          ToIDValue = ''T'' @ str_nat (i + 1), ToType = ''Transition'',
          LinkType = ''ControlLink'', Depiction = ''LineAndArrow'', EvaluationOrder = ''1'',
          l_Description = ''string''\<rparr>
     \<and> Links doc ! (2 * i + 1) =
         \<lparr>l_ID = ''L'' @ str_nat (2 * i + 2),
          FromIDValue = ''T'' @ str_nat (i + 1), FromType = ''Transition'',
          ToIDValue = ''S'' @ str_nat (i + 2), ToType = ''Step'',
          LinkType = ''ControlLink'', Depiction = ''LineAndArrow'', EvaluationOrder = ''1'',
          l_Description = ''string''\<rparr>"
proof -
  from generate_InrD [OF assms(1)] obtain sol
    where doc: "doc = build_document e res sol (optimal_solution_id opt) gr" by blast
  let ?ss = "steps (step_pass e res sol gr)"
  from assms(2) have i: "i < length ?ss - 1"
    by (simp add: doc build_document_fields)
  then have s0: "s_id (?ss ! i) = ''S'' @ str_nat (i + 1)"
    by (intro step_pass_s_id) simp
  from i have s1: "s_id (?ss ! (i + 1)) = ''S'' @ str_nat (i + 1 + 1)"
    by (intro step_pass_s_id) simp
  from nth_link_pairs [OF i, of ?ss]
  have l0: "make_links ?ss ! (2 * i) = link_pair ?ss i ! 0"
    and l1: "make_links ?ss ! (2 * i + 1) = link_pair ?ss i ! 1"
    by (simp_all add: make_links_pairs)
  show ?thesis
    using s0 s1 l0 l1
    by (simp add: doc build_document_fields length_make_links link_pair_def mk_link_def)
qed

theorem link_order_and_numbering_witness:
  "l_ID (Links ex_doc ! 2) = ''L3'' \<and> FromIDValue (Links ex_doc ! 2) = ''S2''
     \<and> ToIDValue (Links ex_doc ! 2) = ''T2''
     \<and> l_ID (Links ex_doc ! 3) = ''L4'' \<and> FromIDValue (Links ex_doc ! 3) = ''T2''
     \<and> ToIDValue (Links ex_doc ! 3) = ''S3''"
proof -
  have "(1::nat) < length (Steps ex_doc) - 1"
    by (simp add: ex_steps_length)
  from link_order_and_numbering [OF ex_generate this]
  show ?thesis
    by (simp add: str_nat_digits)
qed


subsection \<open>Conditions of the transitions\<close>

text \<open>
  C4, as the generator has it. In every compiled document the condition of transition 1
  is the text \<open>True\<close>, with a capital T, and the condition of every other transition
  is the text \<open>Step d is Completed\<close>, where \<open>d\<close> is the description of the step that
  precedes the transition: transition \<open>i + 1\<close> stands at position \<open>i\<close> of the list of
  transitions and follows the step at position \<open>i\<close> of the list of steps.
\<close>

theorem transition_conditions:
  assumes "generate_b2mml_master_recipe e res solutions opt gr = Inr doc"
  shows "t_ID (Transitions doc ! 0) = ''T1'' \<and> t_Condition (Transitions doc ! 0) = ''True''
     \<and> (\<forall>i. 1 \<le> i \<and> i < length (Transitions doc) \<longrightarrow>
           t_ID (Transitions doc ! i) = ''T'' @ str_nat (i + 1) \<and>
           t_Condition (Transitions doc ! i) =
             ''Step '' @ s_description (Steps doc ! i) @ '' is Completed'')"
proof -
  from generate_InrD [OF assms] obtain sol
    where doc: "doc = build_document e res sol (optimal_solution_id opt) gr" by blast
  let ?ss = "steps (step_pass e res sol gr)"
  have len: "length ?ss = length (assigned_elements sol gr) + 2"
    by (rule length_step_pass)
  have "make_transitions ?ss ! 0 = make_transition ?ss 1"
    using len nth_make_transitions [of 0 ?ss] by simp
  then have first: "t_ID (Transitions doc ! 0) = ''T1'' \<and> t_Condition (Transitions doc ! 0) = ''True''"
    by (simp add: doc build_document_fields make_transition_def str_nat_1)
  have rest: "t_ID (Transitions doc ! i) = ''T'' @ str_nat (i + 1) \<and>
      t_Condition (Transitions doc ! i) = ''Step '' @ s_description (Steps doc ! i) @ '' is Completed''"
    if "1 \<le> i \<and> i < length (Transitions doc)" for i
  proof -
    from that have i: "i < length ?ss - 1" "i \<noteq> 0"
      by (simp_all add: doc build_document_fields length_make_transitions)
    from nth_make_transitions [OF i(1)] i(2) show ?thesis
      by (simp add: doc build_document_fields make_transition_def)
  qed
  from first rest show ?thesis by blast
qed

theorem transition_conditions_witness:
  "t_Condition (Transitions ex_doc ! 0) = ''True''
   \<and> t_Condition (Transitions ex_doc ! 1) = ''Step 001:HC10_Heating:Heating is Completed''"
proof -
  have len: "length (Transitions ex_doc) = 2"
    by (simp add: ex_doc_def build_document_fields length_make_transitions length_step_pass
        ex_assigned)
  have d: "s_description (Steps ex_doc ! 1) = ''001:HC10_Heating:Heating''"
    by code_simp
  from transition_conditions [OF ex_generate] len d show ?thesis
    by simp
qed

theorem transition_1_condition_counterexample:
  "generate_b2mml_master_recipe ex_env ex_res [ex_sol] ex_opt ex_recipe = Inr ex_doc
   \<and> t_Condition (Transitions ex_doc ! 0) \<noteq> ''true''"
proof -
  have "t_Condition (Transitions ex_doc ! 0) = ''True''"
    by code_simp
  then show ?thesis
    by (simp add: ex_generate)
qed


subsection \<open>Allocation of identifiers\<close>




subsection \<open>Resolution of a property\<close>

text \<open>
  C6. Resolving a property scans the capability records of the resource, accepts a record
  only if its capability names contain the name asked for, looks in an accepted record for
  a property of exactly the name asked for and only then for one that has it up to case,
  whatever the case folding is, and returns the realized-by reference of the first property
  found. For an unknown resource, and when no property of an accepted record matches, the
  result is not-found, which is a value; the formula identifier then carries the marker
  \<open>null\<close>, and the compile returns a document in which every unresolved parameter has the
  identifier of its ordinal and \<open>null\<close>.
\<close>

theorem property_resolution:
  "find_property_realized_by lower res rname cname pname = resolve_spec lower res rname cname pname
   \<and> (res rname = None \<longrightarrow> find_property_realized_by lower res rname cname pname = None)
   \<and> ((\<forall>cds cd p. res rname = Some cds \<and> cd \<in> set cds \<and> cname \<in> set (capability cd)
          \<and> p \<in> set (properties cd) \<longrightarrow> lower (property_name p) \<noteq> lower pname)
        \<longrightarrow> find_property_realized_by lower res rname cname pname = None)
   \<and> (resolve_param_id lower res a pe param = None \<longrightarrow>
        fp_ID (formula_entry lower res a pe param n) = pad3 n @ '':null'')
   \<and> (res (resource a) = None \<longrightarrow>
        fp_ID (formula_entry lower res a pe param n) = pad3 n @ '':null'')
   \<and> (optimal_solution solutions opt = Some sol \<and> inputs_ok e res sol gr \<longrightarrow>
        (\<exists>doc. generate_b2mml_master_recipe e res solutions opt gr = Inr doc \<and>
           (\<forall>k < length (Formula doc).
              resolve_param_id (str_lower e) res
                (assignment_of sol (fst (assigned_parameters sol gr ! k)))
                (fst (assigned_parameters sol gr ! k)) (snd (assigned_parameters sol gr ! k)) = None
              \<longrightarrow> fp_ID (Formula doc ! k) = pad3 (k + 1) @ '':null'')))"
proof -
  have nomatch: "find_property_realized_by lower res rname cname pname = None"
    if h: "\<forall>cds cd p. res rname = Some cds \<and> cd \<in> set cds \<and> cname \<in> set (capability cd)
          \<and> p \<in> set (properties cd) \<longrightarrow> lower (property_name p) \<noteq> lower pname"
  proof (cases "res rname")
    case None
    then show ?thesis by (rule unknown_resource_unresolved)
  next
    case (Some cds)
    have "find (\<lambda>cd. accepted cname cd \<and>
              list_ex (\<lambda>p. lower (property_name p) = lower pname) (properties cd)) cds = None"
      using h Some by (auto simp: find_None_iff accepted_def list_ex_iff)
    with Some show ?thesis
      by (simp add: find_property_realized_by_spec resolve_spec_def)
  qed
  have null: "fp_ID (formula_entry lw res a' pe' param' n') = pad3 n' @ '':null''"
    if "resolve_param_id lw res a' pe' param' = None" for lw a' pe' param' n'
    using that by (simp add: formula_entry_def formatted_param_id_def or_null_None)
  have compiled: "\<exists>doc. generate_b2mml_master_recipe e res solutions opt gr = Inr doc \<and>
           (\<forall>k < length (Formula doc).
              resolve_param_id (str_lower e) res
                (assignment_of sol (fst (assigned_parameters sol gr ! k)))
                (fst (assigned_parameters sol gr ! k)) (snd (assigned_parameters sol gr ! k)) = None
              \<longrightarrow> fp_ID (Formula doc ! k) = pad3 (k + 1) @ '':null'')"
    if "optimal_solution solutions opt = Some sol" "inputs_ok e res sol gr"
  proof -
    let ?doc = "build_document e res sol (optimal_solution_id opt) gr"
    have gen: "generate_b2mml_master_recipe e res solutions opt gr = Inr ?doc"
      using that by (rule generate_returns)
    have "fp_ID (Formula ?doc ! k) = pad3 (k + 1) @ '':null''"
      if "k < length (Formula ?doc)"
        "resolve_param_id (str_lower e) res
           (assignment_of sol (fst (assigned_parameters sol gr ! k)))
           (fst (assigned_parameters sol gr ! k)) (snd (assigned_parameters sol gr ! k)) = None" for k
    proof -
      from that(1) have "k < length (assigned_parameters sol gr)"
        by (simp add: build_document_fields length_formula_pass)
      then have "Formula ?doc ! k = entry_of (str_lower e) res sol (assigned_parameters sol gr) k"
        by (simp add: build_document_fields nth_formula_pass)
      with null [OF that(2), of "k + 1"] show ?thesis
        by (simp add: entry_of_def)
    qed
    with gen show ?thesis by blast
  qed
  have one: "find_property_realized_by lower res rname cname pname = resolve_spec lower res rname cname pname"
    by (rule find_property_realized_by_spec)
  have two: "res rname = None \<longrightarrow> find_property_realized_by lower res rname cname pname = None"
    by (simp add: unknown_resource_unresolved)
  have five: "res (resource a) = None \<longrightarrow>
        fp_ID (formula_entry lower res a pe param n) = pad3 n @ '':null''"
    using null [of lower a pe param n] by (simp add: resolve_param_id_unknown)
  from one two nomatch null [of lower a pe param n] five compiled show ?thesis
    by blast
qed

theorem property_resolution_witness:
  "find_property_realized_by ascii_lower ex_res (resource ex_assignment) ''Heating'' ''Temperature''
     = Some ''ns=2;i=17''
   \<and> find_property_realized_by ascii_lower Map.empty (resource ex_assignment) ''Heating'' ''Temperature''
     = None
   \<and> find_property_realized_by ascii_lower ex_res (resource ex_assignment) ''Heating'' ''Pressure'' = None
   \<and> fp_ID (formula_entry ascii_lower Map.empty ex_assignment ex_heating ex_param 1) = ''001:null''
   \<and> generate_b2mml_master_recipe ex_env Map.empty [ex_sol2] ex_opt ex_recipe2 = Inr ex_doc5
   \<and> map fp_ID (Formula ex_doc5) = [''001:null'', ''002:null'']"
proof -
  have a: "resolve_spec ascii_lower ex_res (resource ex_assignment) ''Heating'' ''Temperature''
      = Some ''ns=2;i=17''"
    by code_simp
  have b: "\<forall>cds cd p. ex_res (resource ex_assignment) = Some cds \<and> cd \<in> set cds
        \<and> ''Heating'' \<in> set (capability cd) \<and> p \<in> set (properties cd)
        \<longrightarrow> ascii_lower (property_name p) \<noteq> ascii_lower ''Pressure''"
    by (auto simp: ex_res_def ex_assignment_def ascii_lower_def lower_char_def)
  have c: "resolve_param_id ascii_lower Map.empty ex_assignment ex_heating ex_param = None"
    by code_simp
  have w1: "find_property_realized_by ascii_lower ex_res (resource ex_assignment) ''Heating'' ''Temperature''
      = Some ''ns=2;i=17''"
    using conjunct1 [OF property_resolution [where lower = ascii_lower and res = ex_res
        and rname = "resource ex_assignment" and cname = "''Heating''" and pname = "''Temperature''"]] a
    by simp
  have w2: "find_property_realized_by ascii_lower ex_res (resource ex_assignment) ''Heating'' ''Pressure'' = None"
    using conjunct1 [OF conjunct2 [OF conjunct2 [OF property_resolution [where lower = ascii_lower
        and res = ex_res and rname = "resource ex_assignment" and cname = "''Heating''"
        and pname = "''Pressure''"]]]] b
    by blast
  note th = property_resolution [where lower = ascii_lower and res = Map.empty
      and rname = "resource ex_assignment" and cname = "''Heating''" and pname = "''Temperature''"
      and a = ex_assignment and pe = ex_heating and param = ex_param and n = 1
      and solutions = "[ex_sol2]" and opt = ex_opt and sol = ex_sol2 and e = ex_env
      and gr = ex_recipe2]
  have w3: "find_property_realized_by ascii_lower Map.empty (resource ex_assignment) ''Heating'' ''Temperature''
      = None"
    using conjunct1 [OF conjunct2 [OF th]] by simp
  have w4: "fp_ID (formula_entry ascii_lower Map.empty ex_assignment ex_heating ex_param 1) = ''001:null''"
    using conjunct1 [OF conjunct2 [OF conjunct2 [OF conjunct2 [OF th]]]] c by (simp add: pad3_1)
  have len: "length (Formula ex_doc5) = 2"
    by (simp add: ex_doc5_def build_document_fields length_formula_pass ex2_assigned_parameters)
  have r: "resolve_param_id (str_lower ex_env) Map.empty
       (assignment_of ex_sol2 (fst (assigned_parameters ex_sol2 ex_recipe2 ! k)))
       (fst (assigned_parameters ex_sol2 ex_recipe2 ! k))
       (snd (assigned_parameters ex_sol2 ex_recipe2 ! k)) = None" for k
    by (rule resolve_param_id_unknown) simp
  from conjunct2 [OF conjunct2 [OF conjunct2 [OF conjunct2 [OF conjunct2 [OF th]]]]]
    ex2_optimal ex5_inputs_ok ex5_generate
  have all: "\<forall>k < length (Formula ex_doc5). fp_ID (Formula ex_doc5 ! k) = pad3 (k + 1) @ '':null''"
    using r by simp
  have p: "pad3 (0 + 1) = ''001''" "pad3 (1 + 1) = ''002''"
    by (simp_all add: pad3_def str_nat.simps digit_char_def numeral_2_eq_2)
  from all len have "fp_ID (Formula ex_doc5 ! 0) = ''001:null''" "fp_ID (Formula ex_doc5 ! 1) = ''002:null''"
    using p by (metis append_Cons append_Nil zero_less_numeral, metis append_Cons append_Nil one_less_numeral_iff semiring_norm(76))
  with len have w5: "map fp_ID (Formula ex_doc5) = [''001:null'', ''002:null'']"
    by (intro nth_equalityI) (auto simp: less_Suc_eq numeral_2_eq_2)
  from w1 w3 w2 w4 ex5_generate w5 show ?thesis
    by - (intro conjI, assumption+)
qed

subsection \<open>Value strings\<close>




subsection \<open>The scenario with one element\<close>

text \<open>
  C8, as the generator has it. A recipe with one process element that has one parameter,
  and a solution with a matching assignment, compile to exactly 3 steps (Init, the
  operation, End), 2 transitions, 4 links and 1 formula parameter, whose identifier starts
  with the ordinal \<open>001\<close>; and they do compile when the strings of the inputs hold no
  character that XML does not admit.
\<close>

theorem single_element_scenario:
  assumes "ProcessElements gr = [pe]" and "pe_Parameters pe = [p]"
    and "find_assignment sol pe = Some a"
    and "optimal_solution solutions opt = Some sol"
  shows "(inputs_ok e res sol gr \<longrightarrow>
           (\<exists>doc. generate_b2mml_master_recipe e res solutions opt gr = Inr doc))
     \<and> (\<forall>doc. generate_b2mml_master_recipe e res solutions opt gr = Inr doc \<longrightarrow>
           length (Steps doc) = 3 \<and> length (Transitions doc) = 2 \<and> length (Links doc) = 4
           \<and> length (Formula doc) = 1
           \<and> fp_ID (Formula doc ! 0) = ''001:'' @ or_null (resolve_param_id (str_lower e) res a pe p))"
proof -
  let ?doc = "build_document e res sol (optimal_solution_id opt) gr"
  have ae: "assigned_elements sol gr = [pe]"
    by (simp add: assigned_elements_find assms)
  have ap: "assigned_parameters sol gr = [(pe, p)]"
    by (simp add: assigned_parameters_def ae assms)
  have counts: "length (Steps ?doc) = 3 \<and> length (Transitions ?doc) = 2 \<and> length (Links ?doc) = 4"
    by (simp add: build_document_fields length_step_pass length_make_transitions
        length_make_links ae)
  have len: "length (Formula ?doc) = 1"
    by (simp add: build_document_fields length_formula_pass ap)
  have id: "fp_ID (Formula ?doc ! 0) = ''001:'' @ or_null (resolve_param_id (str_lower e) res a pe p)"
    by (simp add: build_document_fields nth_formula_pass ap entry_of_def formula_entry_def
        formatted_param_id_def pad3_1 assignment_of_find [OF assms(3)])
  have first: "inputs_ok e res sol gr \<longrightarrow>
      (\<exists>doc. generate_b2mml_master_recipe e res solutions opt gr = Inr doc)"
    using generate_returns [OF assms(4), of e res gr] by blast
  have second: "length (Steps doc) = 3 \<and> length (Transitions doc) = 2 \<and> length (Links doc) = 4
           \<and> length (Formula doc) = 1
           \<and> fp_ID (Formula doc ! 0) = ''001:'' @ or_null (resolve_param_id (str_lower e) res a pe p)"
    if "generate_b2mml_master_recipe e res solutions opt gr = Inr doc" for doc
  proof -
    from that assms(4) have "doc = ?doc" by (rule generate_doc)
    with counts len id show ?thesis by (simp only:)
  qed
  from first second show ?thesis
    by blast
qed

theorem single_element_scenario_witness:
  "generate_b2mml_master_recipe ex_env ex_res [ex_sol] ex_opt ex_recipe = Inr ex_doc
   \<and> length (Steps ex_doc) = 3 \<and> length (Transitions ex_doc) = 2 \<and> length (Links ex_doc) = 4
   \<and> length (Formula ex_doc) = 1 \<and> fp_ID (Formula ex_doc ! 0) = ''001:ns=2;i=17''"
proof -
  have a: "ProcessElements ex_recipe = [ex_heating]" "pe_Parameters ex_heating = [ex_param]"
    by (simp_all add: ex_recipe_def ex_heating_def)
  have b: "find_assignment ex_sol ex_heating = Some ex_assignment"
    by (simp add: find_assignment_def ex_sol_def ex_assignment_def ex_heating_def)
  have c: "or_null (resolve_param_id (str_lower ex_env) ex_res ex_assignment ex_heating ex_param)
      = ''ns=2;i=17''"
    by code_simp
  from single_element_scenario [OF a b ex_optimal, of ex_env ex_res] ex_inputs_ok
  have "\<exists>doc. generate_b2mml_master_recipe ex_env ex_res [ex_sol] ex_opt ex_recipe = Inr doc"
    by blast
  moreover from single_element_scenario [OF a b ex_optimal, of ex_env ex_res] ex_generate
  have "length (Steps ex_doc) = 3 \<and> length (Transitions ex_doc) = 2 \<and> length (Links ex_doc) = 4
     \<and> length (Formula ex_doc) = 1
     \<and> fp_ID (Formula ex_doc ! 0) =
         ''001:'' @ or_null (resolve_param_id (str_lower ex_env) ex_res ex_assignment ex_heating ex_param)"
    by blast
  ultimately show ?thesis
    using ex_generate by (simp add: c)
qed

theorem single_element_five_steps_counterexample:
  "generate_b2mml_master_recipe ex_env ex_res [ex_sol] ex_opt ex_recipe = Inr ex_doc
   \<and> length (Steps ex_doc) \<noteq> 5"
  by (simp add: ex_generate ex_steps_length)

subsection \<open>Errors\<close>

lemma optimal_solution_None:
  "(\<forall>sol \<in> set solutions. solution_id sol \<noteq> optimal_solution_id opt) \<Longrightarrow>
   optimal_solution solutions opt = None"
  by (simp add: optimal_solution_def find_None_iff)

lemma optimal_solution_Some:
  "\<exists>sol \<in> set solutions. solution_id sol = optimal_solution_id opt \<Longrightarrow>
   \<exists>sol. optimal_solution solutions opt = Some sol \<and> sol \<in> set solutions
     \<and> solution_id sol = optimal_solution_id opt"
proof -
  assume "\<exists>sol \<in> set solutions. solution_id sol = optimal_solution_id opt"
  then have "optimal_solution solutions opt \<noteq> None"
    by (simp add: optimal_solution_def find_None_iff) blast
  then obtain sol where "optimal_solution solutions opt = Some sol" by auto
  then show ?thesis
    by (auto simp: optimal_solution_def find_Some_iff)
qed

text \<open>
  C9. When no loaded solution has the selected id, the generator raises an error that names
  the id, and builds nothing. When one has, the gaps of single elements do not abort the
  run: an element without assignment leaves the outcome as it is without the element;
  taking resources out of the catalogue, so that references are no longer found, leaves a
  run that returned returning; and whatever is missing, the run returns a document when the
  strings of its inputs hold no character that XML does not admit. The one error left with
  the id present is that of the final reading of the document, on such a character.
\<close>

theorem missing_solution_is_fatal:
  "((\<forall>sol \<in> set solutions. solution_id sol \<noteq> optimal_solution_id opt) \<longrightarrow>
      generate_b2mml_master_recipe e res solutions opt gr =
        Inl (ValueError (''Optimal solution '' @ str_int (optimal_solution_id opt)
                         @ '' not found in solutions.json'')))
   \<and> ((\<exists>sol \<in> set solutions. solution_id sol = optimal_solution_id opt) \<longrightarrow>
      (\<forall>err. generate_b2mml_master_recipe e res solutions opt gr = Inl err \<longrightarrow> err = ExpatError))
   \<and> ((\<exists>sol \<in> set solutions. solution_id sol = optimal_solution_id opt) \<and>
       (\<forall>sol \<in> set solutions. solution_id sol = optimal_solution_id opt \<longrightarrow> inputs_ok e res sol gr) \<longrightarrow>
      (\<exists>doc. generate_b2mml_master_recipe e res solutions opt gr = Inr doc))
   \<and> ((\<forall>sol \<in> set solutions. \<forall>a \<in> set (assignments sol). step_id a \<noteq> pe_ID pe) \<longrightarrow>
      generate_b2mml_master_recipe e res solutions opt \<lparr>gr_ID = g, ProcessElements = xs @ pe # ys\<rparr> =
      generate_b2mml_master_recipe e res solutions opt \<lparr>gr_ID = g, ProcessElements = xs @ ys\<rparr>)
   \<and> (generate_b2mml_master_recipe e res solutions opt gr = Inr doc \<and>
       list_all (\<lambda>k. xml_text (uuid4 e k)) [0..<length (ProcessElements gr)] \<longrightarrow>
      (\<exists>doc'. generate_b2mml_master_recipe e (res |` A) solutions opt gr = Inr doc'))"
proof (intro conjI impI)
  assume "\<forall>sol \<in> set solutions. solution_id sol \<noteq> optimal_solution_id opt"
  then have "optimal_solution solutions opt = None"
    by (rule optimal_solution_None)
  then show "generate_b2mml_master_recipe e res solutions opt gr =
        Inl (ValueError (''Optimal solution '' @ str_int (optimal_solution_id opt)
                         @ '' not found in solutions.json''))"
    by (simp add: generate_b2mml_master_recipe_def)
next
  assume "\<exists>sol \<in> set solutions. solution_id sol = optimal_solution_id opt"
  from optimal_solution_Some [OF this] obtain sol
    where "optimal_solution solutions opt = Some sol" by blast
  then show "\<forall>err. generate_b2mml_master_recipe e res solutions opt gr = Inl err \<longrightarrow> err = ExpatError"
    by (simp add: generate_serialise)
next
  assume h: "(\<exists>sol \<in> set solutions. solution_id sol = optimal_solution_id opt) \<and>
       (\<forall>sol \<in> set solutions. solution_id sol = optimal_solution_id opt \<longrightarrow> inputs_ok e res sol gr)"
  from optimal_solution_Some [OF conjunct1 [OF h]] obtain sol
    where sol: "optimal_solution solutions opt = Some sol" "sol \<in> set solutions"
      "solution_id sol = optimal_solution_id opt" by blast
  with h have "inputs_ok e res sol gr" by blast
  with sol(1) show "\<exists>doc. generate_b2mml_master_recipe e res solutions opt gr = Inr doc"
    by (simp add: generate_returns)
next
  assume h: "\<forall>sol \<in> set solutions. \<forall>a \<in> set (assignments sol). step_id a \<noteq> pe_ID pe"
  show "generate_b2mml_master_recipe e res solutions opt \<lparr>gr_ID = g, ProcessElements = xs @ pe # ys\<rparr> =
      generate_b2mml_master_recipe e res solutions opt \<lparr>gr_ID = g, ProcessElements = xs @ ys\<rparr>"
  proof (cases "optimal_solution solutions opt")
    case None
    then show ?thesis
      by (simp add: generate_b2mml_master_recipe_def)
  next
    case (Some sol)
    then have "sol \<in> set solutions"
      by (auto simp: optimal_solution_def find_Some_iff)
    with h have "\<forall>a \<in> set (assignments sol). step_id a \<noteq> pe_ID pe" by blast
    then have "assigned_elements sol \<lparr>gr_ID = g, ProcessElements = xs @ pe # ys\<rparr> =
        assigned_elements sol \<lparr>gr_ID = g, ProcessElements = xs @ ys\<rparr>"
      by (rule assigned_elements_insert)
    then have "build_document e res sol (optimal_solution_id opt) \<lparr>gr_ID = g, ProcessElements = xs @ pe # ys\<rparr> =
        build_document e res sol (optimal_solution_id opt) \<lparr>gr_ID = g, ProcessElements = xs @ ys\<rparr>"
      by (intro build_document_assigned) simp_all
    with Some show ?thesis
      by (simp add: generate_b2mml_master_recipe_def)
  qed
next
  assume h: "generate_b2mml_master_recipe e res solutions opt gr = Inr doc \<and>
       list_all (\<lambda>k. xml_text (uuid4 e k)) [0..<length (ProcessElements gr)]"
  from generate_InrD [OF conjunct1 [OF h]] obtain sol
    where sol: "optimal_solution solutions opt = Some sol"
      and doc: "doc = build_document e res sol (optimal_solution_id opt) gr" by blast
  from h sol have "xml_document (build_document e res sol (optimal_solution_id opt) gr)"
    by (simp add: generate_serialise split: if_splits)
  then have "xml_document (build_document e (res |` A) sol (optimal_solution_id opt) gr)"
    using conjunct2 [OF h] by (rule xml_document_restrict)
  with sol show "\<exists>doc'. generate_b2mml_master_recipe e (res |` A) solutions opt gr = Inr doc'"
    by (simp add: generate_Inr)
qed

theorem missing_solution_is_fatal_witness:
  "generate_b2mml_master_recipe ex_env ex_res [ex_sol] \<lparr>optimal_solution_id = 5\<rparr> ex_recipe =
     Inl (ValueError ''Optimal solution 5 not found in solutions.json'')
   \<and> generate_b2mml_master_recipe ex_env ex_res [ex_sol] ex_opt ex_recipe7 = Inl ExpatError
   \<and> (\<exists>doc. generate_b2mml_master_recipe ex_env Map.empty [ex_sol] ex_opt ex_recipe2 = Inr doc)
   \<and> generate_b2mml_master_recipe ex_env ex_res [ex_sol] ex_opt
       \<lparr>gr_ID = ''GR1'', ProcessElements = [] @ ex_dosing # [ex_heating]\<rparr> = Inr ex_doc
   \<and> (\<exists>doc. generate_b2mml_master_recipe ex_env (ex_res |` {}) [ex_sol] ex_opt ex_recipe = Inr doc)"
proof -
  note th = missing_solution_is_fatal
  have s5: "str_int 5 = ''5''"
    by (simp add: str_int_def str_nat.simps digit_char_def)
  have a: "\<forall>sol \<in> set [ex_sol]. solution_id sol \<noteq> optimal_solution_id \<lparr>optimal_solution_id = 5\<rparr>"
    by (simp add: ex_sol_def)
  have b: "\<exists>sol \<in> set [ex_sol]. solution_id sol = optimal_solution_id ex_opt"
    by (simp add: ex_sol_def ex_opt_def)
  have w1: "generate_b2mml_master_recipe ex_env ex_res [ex_sol] \<lparr>optimal_solution_id = 5\<rparr> ex_recipe =
     Inl (ValueError ''Optimal solution 5 not found in solutions.json'')"
    using conjunct1 [OF th [where solutions = "[ex_sol]" and opt = "\<lparr>optimal_solution_id = 5\<rparr>"
        and e = ex_env and res = ex_res and gr = ex_recipe]] a
    by (simp add: s5)
  have n: "generate_b2mml_master_recipe ex_env ex_res [ex_sol] ex_opt ex_recipe7 \<noteq>
      Inr (build_document ex_env ex_res ex_sol 4 ex_recipe7)"
    by code_simp
  have w2: "generate_b2mml_master_recipe ex_env ex_res [ex_sol] ex_opt ex_recipe7 = Inl ExpatError"
  proof (cases "generate_b2mml_master_recipe ex_env ex_res [ex_sol] ex_opt ex_recipe7")
    case (Inl err)
    with conjunct1 [OF conjunct2 [OF th [where solutions = "[ex_sol]" and opt = ex_opt
        and e = ex_env and res = ex_res and gr = ex_recipe7]]] b
    show ?thesis by simp
  next
    case (Inr doc)
    from generate_doc [OF Inr ex_optimal] Inr n show ?thesis
      by (simp add: ex_opt_id)
  qed
  have c: "\<forall>sol \<in> set [ex_sol]. solution_id sol = optimal_solution_id ex_opt \<longrightarrow>
      inputs_ok ex_env Map.empty sol ex_recipe2"
  proof -
    have "inputs_ok ex_env Map.empty ex_sol ex_recipe2" by code_simp
    then show ?thesis by simp
  qed
  have w3: "\<exists>doc. generate_b2mml_master_recipe ex_env Map.empty [ex_sol] ex_opt ex_recipe2 = Inr doc"
    using conjunct1 [OF conjunct2 [OF conjunct2 [OF th [where solutions = "[ex_sol]" and opt = ex_opt
        and e = ex_env and res = Map.empty and gr = ex_recipe2]]]] b c
    by blast
  have d: "\<forall>sol \<in> set [ex_sol]. \<forall>a \<in> set (assignments sol). step_id a \<noteq> pe_ID ex_dosing"
    by (simp add: ex_sol_def ex_assignment_def ex_dosing_def)
  have w4: "generate_b2mml_master_recipe ex_env ex_res [ex_sol] ex_opt
       \<lparr>gr_ID = ''GR1'', ProcessElements = [] @ ex_dosing # [ex_heating]\<rparr> = Inr ex_doc"
    using conjunct1 [OF conjunct2 [OF conjunct2 [OF conjunct2 [OF th [where solutions = "[ex_sol]"
        and opt = ex_opt and e = ex_env and res = ex_res and pe = ex_dosing and g = "''GR1''"
        and xs = "[]" and ys = "[ex_heating]"]]]]] d ex_generate
    by (simp add: ex_recipe_def)
  have t: "list_all (\<lambda>k. xml_text (uuid4 ex_env k)) [0..<length (ProcessElements ex_recipe)]"
    by code_simp
  have w5: "\<exists>doc. generate_b2mml_master_recipe ex_env (ex_res |` {}) [ex_sol] ex_opt ex_recipe = Inr doc"
    using conjunct2 [OF conjunct2 [OF conjunct2 [OF conjunct2 [OF th [where solutions = "[ex_sol]"
        and opt = ex_opt and e = ex_env and res = ex_res and gr = ex_recipe and doc = ex_doc
        and A = "{}"]]]]] ex_generate t
    by blast
  from w1 w2 w3 w4 w5 show ?thesis
    by - (intro conjI, assumption+)
qed

subsection \<open>The special case for dosing\<close>

text \<open>
  C10. For the parameter with id \<open>Dosing_Amount001\<close> of the process element with id
  \<open>Dosing001\<close>, and for no other, the identifier in the formula section is resolved as the
  property \<open>Litre\<close> under the capability \<open>Dosing\<close> of the assigned resource, whatever the key
  and unit of the parameter and the capability details of the assignment are. Every other
  parameter is resolved by matching: each capability detail offers the resolution of its
  first matched property whose id equals the key of the parameter and whose unit equals its
  unit, and the identifier carries the first of these that is a non-empty reference, or
  \<open>null\<close>.
\<close>

theorem dosing_special_case:
  assumes "generate_b2mml_master_recipe e res solutions opt gr = Inr doc"
    and "optimal_solution solutions opt = Some sol"
    and "k < length (Formula doc)"
    and "assigned_parameters sol gr ! k = (pe, param)"
    and "a = assignment_of sol pe"
  shows "(pe_ID pe = ''Dosing001'' \<and> p_ID param = ''Dosing_Amount001'' \<longrightarrow>
           fp_ID (Formula doc ! k) =
             pad3 (k + 1) @ '':'' @
               (case find_property_realized_by (str_lower e) res (resource a) ''Dosing'' ''Litre'' of
                  None \<Rightarrow> ''null''
                | Some r \<Rightarrow> if r = [] then ''null'' else r)
           \<and> fp_ID (formula_entry (str_lower e) res (a\<lparr>capability_details := cds\<rparr>) pe
                (param\<lparr>p_Key := key, p_UnitOfMeasure := u\<rparr>) (k + 1)) = fp_ID (Formula doc ! k))
     \<and> (\<not> (pe_ID pe = ''Dosing001'' \<and> p_ID param = ''Dosing_Amount001'') \<longrightarrow>
           fp_ID (Formula doc ! k) =
             pad3 (k + 1) @ '':'' @ first_reference (generic_candidates (str_lower e) res a param))"
proof -
  from assms(1,2) have doc: "doc = build_document e res sol (optimal_solution_id opt) gr"
    by (rule generate_doc)
  from assms(3) have k: "k < length (assigned_parameters sol gr)"
    by (simp add: doc build_document_fields length_formula_pass)
  have entry: "Formula doc ! k = formula_entry (str_lower e) res a pe param (k + 1)"
    using k assms(4,5)
    by (simp add: doc build_document_fields nth_formula_pass entry_of_def)
  have special: "fp_ID (formula_entry (str_lower e) res a' pe param' (k + 1)) =
      pad3 (k + 1) @ '':'' @
        (case find_property_realized_by (str_lower e) res (resource a') ''Dosing'' ''Litre'' of
           None \<Rightarrow> ''null''
         | Some r \<Rightarrow> if r = [] then ''null'' else r)"
    if "pe_ID pe = ''Dosing001''" "p_ID param' = ''Dosing_Amount001''" for a' param'
    using that
    by (simp add: formula_entry_def formatted_param_id_def resolve_param_id_def or_null_cases)
  have generic: "fp_ID (formula_entry (str_lower e) res a pe param (k + 1)) =
      pad3 (k + 1) @ '':'' @ first_reference (generic_candidates (str_lower e) res a param)"
    if "\<not> (pe_ID pe = ''Dosing001'' \<and> p_ID param = ''Dosing_Amount001'')"
  proof -
    from that have "resolve_param_id (str_lower e) res a pe param =
        match_details (str_lower e) res a param (capability_details a) None"
      unfolding resolve_param_id_def by (rule if_not_P)
    then show ?thesis
      by (simp add: formula_entry_def formatted_param_id_def generic_resolution)
  qed
  have indep: "fp_ID (formula_entry (str_lower e) res (a\<lparr>capability_details := cds\<rparr>) pe
      (param\<lparr>p_Key := key, p_UnitOfMeasure := u\<rparr>) (k + 1)) =
      fp_ID (formula_entry (str_lower e) res a pe param (k + 1))"
    if "pe_ID pe = ''Dosing001''" "p_ID param = ''Dosing_Amount001''"
    using special [of "param\<lparr>p_Key := key, p_UnitOfMeasure := u\<rparr>" "a\<lparr>capability_details := cds\<rparr>"]
      special [of param a] that
    by simp
  show ?thesis
    unfolding entry
  proof (intro conjI impI)
    assume h: "pe_ID pe = ''Dosing001'' \<and> p_ID param = ''Dosing_Amount001''"
    then show "fp_ID (formula_entry (str_lower e) res a pe param (k + 1)) =
        pad3 (k + 1) @ '':'' @
          (case find_property_realized_by (str_lower e) res (resource a) ''Dosing'' ''Litre'' of
             None \<Rightarrow> ''null''
           | Some r \<Rightarrow> if r = [] then ''null'' else r)"
      using special [of param a] by blast
    from h show "fp_ID (formula_entry (str_lower e) res (a\<lparr>capability_details := cds\<rparr>) pe
        (param\<lparr>p_Key := key, p_UnitOfMeasure := u\<rparr>) (k + 1)) =
        fp_ID (formula_entry (str_lower e) res a pe param (k + 1))"
      using indep by blast
  next
    assume "\<not> (pe_ID pe = ''Dosing001'' \<and> p_ID param = ''Dosing_Amount001'')"
    then show "fp_ID (formula_entry (str_lower e) res a pe param (k + 1)) =
        pad3 (k + 1) @ '':'' @ first_reference (generic_candidates (str_lower e) res a param)"
      by (rule generic)
  qed
qed

theorem dosing_special_case_witness:
  "fp_ID (Formula ex_doc2 ! 0) = ''001:ns=2;i=30'' \<and> fp_ID (Formula ex_doc2 ! 1) = ''002:ns=2;i=17''
   \<and> length (matched_properties (hd (capability_details ex_assignment))) = 3
   \<and> capability_details ex_dosing_assignment = []"
proof -
  have len: "length (Formula ex_doc2) = 2"
    by (simp add: ex_doc2_def build_document_fields length_formula_pass ex2_assigned_parameters)
  have p: "pad3 (Suc 0) = ''001''" "pad3 (Suc (Suc 0)) = ''002''"
    by (simp_all add: pad3_def str_nat.simps digit_char_def numeral_2_eq_2)
  have r0: "find_property_realized_by ascii_lower ex_res2 (resource ex_dosing_assignment) ''Dosing'' ''Litre''
      = Some ''ns=2;i=30''"
    by code_simp
  have r1: "first_reference (generic_candidates ascii_lower ex_res2 ex_assignment ex_param) = ''ns=2;i=17''"
    by code_simp
  have d: "pe_ID ex_dosing = ''Dosing001'' \<and> p_ID ex_dosing_param = ''Dosing_Amount001''"
    "\<not> (pe_ID ex_heating = ''Dosing001'' \<and> p_ID ex_param = ''Dosing_Amount001'')"
    by (simp_all add: ex_dosing_def ex_dosing_param_def ex_heating_def)
  have w0: "fp_ID (Formula ex_doc2 ! 0) = ''001:ns=2;i=30''"
    using dosing_special_case [OF ex2_generate ex2_optimal, of 0 ex_dosing ex_dosing_param
        ex_dosing_assignment] d(1)
    by (simp add: len ex2_assigned_parameters ex2_assignment_of p r0 str_lower_ex_env)
  have w1: "fp_ID (Formula ex_doc2 ! 1) = ''002:ns=2;i=17''"
    using dosing_special_case [OF ex2_generate ex2_optimal, of 1 ex_heating ex_param ex_assignment] d(2)
    by (simp add: len ex2_assigned_parameters ex2_assignment_of p r1 str_lower_ex_env)
  from w0 w1 show ?thesis
    by (simp add: ex_assignment_def ex_dosing_assignment_def)
qed

end
